theory Spec2Isabelle
  imports Main
begin

section \<open>JavaScript strings\<close>

text \<open>
  Strings of the client are modelled as \<open>string\<close> (lists of 8-bit characters). The
  helpers below follow the ECMAScript operations the client calls:
  \<open>s.split('\n')\<close>, \<open>s.startsWith(p)\<close>, \<open>s.slice(n)\<close> (which is \<open>drop n\<close>),
  \<open>s.trim()\<close>, \<open>s.toLowerCase()\<close> and the truthiness test of a string.
\<close>

definition newline :: char where
  "newline = CHR 0x0A"

text \<open>
  \<open>s.split('\n')\<close>: the pieces between the newlines, in order. The result is never
  empty: a string without a newline is its own single piece, and a string that ends
  in a newline has the empty string as its last piece.
\<close>

fun split_nl :: "string \<Rightarrow> string list" where
  "split_nl [] = [[]]"
| "split_nl (c # cs) =
     (if c = newline then [] # split_nl cs
      else (case split_nl cs of [] \<Rightarrow> [[c]] | l # ls \<Rightarrow> (c # l) # ls))"

definition startsWith :: "string \<Rightarrow> string \<Rightarrow> bool" where
  "startsWith s p = (take (length p) s = p)"

text \<open>
  White space as \<open>trim\<close> sees it, among the 8-bit characters: tab, line feed,
  vertical tab, form feed, carriage return, space and the no-break space.
\<close>

definition is_space :: "char \<Rightarrow> bool" where
  "is_space c = (c = CHR 0x09 \<or> c = CHR 0x0A \<or> c = CHR 0x0B \<or> c = CHR 0x0C
                 \<or> c = CHR 0x0D \<or> c = CHR 0x20 \<or> c = CHR 0xA0)"

definition trim :: "string \<Rightarrow> string" where
  "trim s = rev (dropWhile is_space (rev (dropWhile is_space s)))"

text \<open>A string is truthy when it is not empty; an optional string when it is present and not empty.\<close>

definition truthy :: "string \<Rightarrow> bool" where
  "truthy s = (s \<noteq> [])"

definition truthy_opt :: "string option \<Rightarrow> bool" where
  "truthy_opt v = (case v of None \<Rightarrow> False | Some s \<Rightarrow> truthy s)"

text \<open>\<open>a || b\<close> on a string \<open>a\<close>, and on an optional string \<open>a\<close>, with a string \<open>b\<close>.\<close>

definition or_str :: "string \<Rightarrow> string \<Rightarrow> string" where
  "or_str a d = (if truthy a then a else d)"

definition or_else :: "string option \<Rightarrow> string \<Rightarrow> string" where
  "or_else v d = (case v of None \<Rightarrow> d | Some a \<Rightarrow> or_str a d)"

text \<open>
  \<open>toLowerCase\<close> on the ASCII letters: the codes 65 to 90 move up by 32, which sets
  the bit of value 32 (it is clear in that range); every other character stays.
\<close>

definition lower_char :: "char \<Rightarrow> char" where
  "lower_char c =
     (if (65::nat) \<le> of_char c \<and> of_char c \<le> (90::nat)
      then (case c of Char b0 b1 b2 b3 b4 b5 b6 b7 \<Rightarrow> Char b0 b1 b2 b3 b4 True b6 b7)
      else c)"

definition toLowerCase :: "string \<Rightarrow> string" where
  "toLowerCase s = map lower_char s"

text \<open>Decimal rendering of a number inside a template literal.\<close>

function string_of_nat :: "nat \<Rightarrow> string" where
  "string_of_nat n =
     (if n < 10 then [''0123456789'' ! n]
      else string_of_nat (n div 10) @ [''0123456789'' ! (n mod 10)])"
  by pat_completeness auto
termination
  by (relation "measure id") auto

declare string_of_nat.simps [simp del]

section \<open>Chat stream events\<close>

text \<open>The interface \<open>ChatStreamEvent\<close> of \<open>services/api.ts\<close>.\<close>

datatype event_type =
  Start | Status | Thinking | Tool_call | Tool | Content | Complete | End | Error

record ChatStreamEvent =
  etype :: event_type
  message :: "string option"
  query :: "string option"
  session_id :: "string option"
  tool_name :: "string option"
  tools_used :: "string list option"
  partial :: "bool option"

text \<open>The \<open>message\<close> of an event as a string; it is read only where the message is truthy.\<close>

definition message_text :: "ChatStreamEvent \<Rightarrow> string" where
  "message_text ev = (case message ev of None \<Rightarrow> [] | Some m \<Rightarrow> m)"

text \<open>A thrown JavaScript value: its \<open>name\<close> and its \<open>message\<close>.\<close>

record js_error =
  err_name :: string
  err_message :: string

text \<open>\<open>new Error(m)\<close> and the exception an aborted request or read rejects with.\<close>

definition new_Error :: "string \<Rightarrow> js_error" where
  "new_Error m = \<lparr>err_name = ''Error'', err_message = m\<rparr>"

definition AbortError :: "string \<Rightarrow> js_error" where
  "AbortError m = \<lparr>err_name = ''AbortError'', err_message = m\<rparr>"

text \<open>\<open>String(error)\<close>, as \<open>Error.prototype.toString\<close> computes it.\<close>

definition js_String :: "js_error \<Rightarrow> string" where
  "js_String e =
     (if err_name e = [] then err_message e
      else if err_message e = [] then err_name e
      else err_name e @ '': '' @ err_message e)"

section \<open>The SSE reader of streamChatMessage\<close>

text \<open>
  What the browser hands to \<open>fetchSSE\<close>: the outcome of \<open>fetch\<close>, and for a response
  with a body the outcomes of the successive \<open>reader.read()\<close> calls. A list of reads
  that ends without \<open>Done\<close> or a rejection is a stream on which the next read has not
  resolved yet: the loop is suspended at its \<open>await\<close>.
\<close>

datatype 'b read_result = Chunk 'b | Done | ReadRejected js_error

datatype 'b fetch_result =
  FetchRejected js_error
| Response bool nat "'b read_result list option"

text \<open>What \<open>console.error\<close> receives.\<close>

datatype console_entry =
  SSE_parse_failed string
| SSE_chat_error js_error

datatype run_status = Returned | Suspended

text \<open>
  The state of the reader loop: the state of the \<open>TextDecoder\<close>, the \<open>buffer\<close>
  variable, the state of whoever listens to \<open>onEvent\<close>, and the console.
\<close>

record ('d, 's) sse_state =
  dstate :: 'd
  buffer :: string
  listener :: 's
  console :: "console_entry list"

text \<open>
  \<open>onEvent?.(event)\<close>: the callback is optional. A callback is a function from the
  event and the listener's state to the listener's new state.
\<close>

definition call_onEvent ::
  "(ChatStreamEvent \<Rightarrow> 's \<Rightarrow> 's) option \<Rightarrow> ChatStreamEvent \<Rightarrow> ('d, 's) sse_state \<Rightarrow> ('d, 's) sse_state" where
  "call_onEvent onEvent ev st =
     (case onEvent of None \<Rightarrow> st | Some f \<Rightarrow> st\<lparr>listener := f ev (listener st)\<rparr>)"

text \<open>
  The body of \<open>for (const line of lines)\<close>. \<open>parse\<close> stands for \<open>JSON.parse\<close> followed
  by the reading of the value as a \<open>ChatStreamEvent\<close>; \<open>None\<close> is the exception that the
  inner \<open>catch\<close> logs. The callback is a total function here: an exception of its own
  would be caught by the same \<open>catch\<close> and would add a console entry, with no effect on
  the lines that follow.
\<close>

definition process_line ::
  "(string \<Rightarrow> ChatStreamEvent option) \<Rightarrow> (ChatStreamEvent \<Rightarrow> 's \<Rightarrow> 's) option
     \<Rightarrow> string \<Rightarrow> ('d, 's) sse_state \<Rightarrow> ('d, 's) sse_state" where
  "process_line parse onEvent line st =
     (if startsWith line ''data: '' then
        (let jsonStr = drop 6 line in
         if truthy (trim jsonStr) then
           (case parse jsonStr of
              Some ev \<Rightarrow> call_onEvent onEvent ev st
            | None \<Rightarrow> st\<lparr>console := console st @ [SSE_parse_failed line]\<rparr>)
         else st)
      else st)"

text \<open>\<open>lines.pop() || ''\<close> and the lines that are left.\<close>

definition pop_or_empty :: "string list \<Rightarrow> string" where
  "pop_or_empty ls = (if ls = [] then [] else if truthy (last ls) then last ls else [])"

text \<open>
  One pass of the loop body after a read that delivered \<open>value\<close>:
  \<open>buffer += decoder.decode(value, {stream: true})\<close>, the split, the pop, and the
  loop over the complete lines. The decoder is the platform's; it is a parameter
  \<open>decode\<close> from its state and the bytes to the text and its new state.
\<close>

definition process_chunk ::
  "('d \<Rightarrow> 'b \<Rightarrow> string \<times> 'd) \<Rightarrow> (string \<Rightarrow> ChatStreamEvent option)
     \<Rightarrow> (ChatStreamEvent \<Rightarrow> 's \<Rightarrow> 's) option \<Rightarrow> 'b \<Rightarrow> ('d, 's) sse_state \<Rightarrow> ('d, 's) sse_state" where
  "process_chunk decode parse onEvent val st =
     (let (text, d') = decode (dstate st) val;
          buf = buffer st @ text;
          lines = split_nl buf
      in foldl (\<lambda>s line. process_line parse onEvent line s)
           (st\<lparr>dstate := d', buffer := pop_or_empty lines\<rparr>) (butlast lines))"

text \<open>
  The outer \<open>catch\<close>: anything but an \<open>AbortError\<close> is logged and reported to the
  listener as an \<open>error\<close> event carrying \<open>String(error)\<close>.
\<close>

definition error_event :: "string \<Rightarrow> ChatStreamEvent" where
  "error_event m =
     \<lparr>etype = Error, message = Some m, query = None, session_id = None,
      tool_name = None, tools_used = None, partial = None\<rparr>"

definition catch_outer ::
  "(ChatStreamEvent \<Rightarrow> 's \<Rightarrow> 's) option \<Rightarrow> js_error \<Rightarrow> ('d, 's) sse_state \<Rightarrow> ('d, 's) sse_state" where
  "catch_outer onEvent e st =
     (if err_name e \<noteq> ''AbortError'' then
        call_onEvent onEvent (error_event (js_String e))
          (st\<lparr>console := console st @ [SSE_chat_error e]\<rparr>)
      else st)"

text \<open>The \<open>while (true)\<close> loop over the reads.\<close>

fun read_loop ::
  "('d \<Rightarrow> 'b \<Rightarrow> string \<times> 'd) \<Rightarrow> (string \<Rightarrow> ChatStreamEvent option)
     \<Rightarrow> (ChatStreamEvent \<Rightarrow> 's \<Rightarrow> 's) option \<Rightarrow> 'b read_result list
     \<Rightarrow> ('d, 's) sse_state \<Rightarrow> run_status \<times> ('d, 's) sse_state" where
  "read_loop decode parse onEvent [] st = (Suspended, st)"
| "read_loop decode parse onEvent (Done # rest) st = (Returned, st)"
| "read_loop decode parse onEvent (ReadRejected e # rest) st = (Returned, catch_outer onEvent e st)"
| "read_loop decode parse onEvent (Chunk val # rest) st =
     read_loop decode parse onEvent rest (process_chunk decode parse onEvent val st)"

text \<open>
  \<open>fetchSSE\<close>. \<open>d0\<close> is the state of a fresh \<open>TextDecoder\<close>, \<open>l0\<close> the listener's
  state when the stream is opened; the console starts empty and \<open>buffer\<close> starts as
  the empty string.
\<close>

definition sse_init :: "'d \<Rightarrow> 's \<Rightarrow> ('d, 's) sse_state" where
  "sse_init d0 l0 = \<lparr>dstate = d0, buffer = [], listener = l0, console = []\<rparr>"

definition fetchSSE ::
  "('d \<Rightarrow> 'b \<Rightarrow> string \<times> 'd) \<Rightarrow> (string \<Rightarrow> ChatStreamEvent option)
     \<Rightarrow> (ChatStreamEvent \<Rightarrow> 's \<Rightarrow> 's) option \<Rightarrow> 'b fetch_result
     \<Rightarrow> 'd \<Rightarrow> 's \<Rightarrow> run_status \<times> ('d, 's) sse_state" where
  "fetchSSE decode parse onEvent fr d0 l0 =
     (case fr of
        FetchRejected e \<Rightarrow> (Returned, catch_outer onEvent e (sse_init d0 l0))
      | Response ok status body \<Rightarrow>
          if \<not> ok then
            (Returned, catch_outer onEvent
               (new_Error (''HTTP error! status: '' @ string_of_nat status)) (sse_init d0 l0))
          else
            (case body of
               None \<Rightarrow> (Returned, catch_outer onEvent (new_Error ''No response body'') (sse_init d0 l0))
             | Some reads \<Rightarrow> read_loop decode parse onEvent reads (sse_init d0 l0)))"


subsection \<open>What the reader is expected to deliver\<close>

text \<open>
  The lines of a text that a newline has completed, and the unterminated rest after
  the last newline.
\<close>

definition complete_lines :: "string \<Rightarrow> string list" where
  "complete_lines s = butlast (split_nl s)"

definition partial_line :: "string \<Rightarrow> string" where
  "partial_line s = last (split_nl s)"

text \<open>The event a complete line decodes to, if any, and the lines whose decoding fails loudly.\<close>

definition decode_line :: "(string \<Rightarrow> ChatStreamEvent option) \<Rightarrow> string \<Rightarrow> ChatStreamEvent option" where
  "decode_line parse line =
     (if startsWith line ''data: '' \<and> truthy (trim (drop 6 line)) then parse (drop 6 line) else None)"

definition events_of_lines :: "(string \<Rightarrow> ChatStreamEvent option) \<Rightarrow> string list \<Rightarrow> ChatStreamEvent list" where
  "events_of_lines parse ls = List.map_filter (decode_line parse) ls"

definition malformed :: "(string \<Rightarrow> ChatStreamEvent option) \<Rightarrow> string \<Rightarrow> bool" where
  "malformed parse line =
     (startsWith line ''data: '' \<and> truthy (trim (drop 6 line)) \<and> parse (drop 6 line) = None)"

text \<open>Handing a list of events to the optional callback, first to last.\<close>

definition deliver :: "(ChatStreamEvent \<Rightarrow> 's \<Rightarrow> 's) option \<Rightarrow> ChatStreamEvent list \<Rightarrow> 's \<Rightarrow> 's" where
  "deliver onEvent evs l = (case onEvent of None \<Rightarrow> l | Some f \<Rightarrow> foldl (\<lambda>s e. f e s) l evs)"

text \<open>A listener that only records the events it is called with.\<close>

definition record_event :: "ChatStreamEvent \<Rightarrow> ChatStreamEvent list \<Rightarrow> ChatStreamEvent list" where
  "record_event ev seen = seen @ [ev]"

text \<open>The text the decoder has produced for a sequence of chunks, and its state afterwards.\<close>

fun decode_all :: "('d \<Rightarrow> 'b \<Rightarrow> string \<times> 'd) \<Rightarrow> 'd \<Rightarrow> 'b list \<Rightarrow> string" where
  "decode_all decode d [] = []"
| "decode_all decode d (c # cs) = (case decode d c of (t, d1) \<Rightarrow> t @ decode_all decode d1 cs)"

fun decoder_after :: "('d \<Rightarrow> 'b \<Rightarrow> string \<times> 'd) \<Rightarrow> 'd \<Rightarrow> 'b list \<Rightarrow> 'd" where
  "decoder_after decode d [] = d"
| "decoder_after decode d (c # cs) = (case decode d c of (t, d1) \<Rightarrow> decoder_after decode d1 cs)"

text \<open>
  Two stand-ins used where a concrete stream is evaluated. \<open>decode_ascii\<close> is the
  decoder on chunks of single-byte characters, which decode to themselves.
  \<open>parse_sample\<close> is \<open>JSON.parse\<close> on the three payloads the examples use; every other
  payload is a syntax error.
\<close>

definition decode_ascii :: "unit \<Rightarrow> string \<Rightarrow> string \<times> unit" where
  "decode_ascii d bytes = (bytes, d)"

definition event :: "event_type \<Rightarrow> string option \<Rightarrow> ChatStreamEvent" where
  "event t m =
     \<lparr>etype = t, message = m, query = None, session_id = None,
      tool_name = None, tools_used = None, partial = None\<rparr>"

definition parse_sample :: "string \<Rightarrow> ChatStreamEvent option" where
  \<open>parse_sample s =
     (if s = ''{"type":"start"}'' then Some (event Start None)
      else if s = ''{"type":"content","message":"Hi"}'' then Some (event Content (Some ''Hi''))
      else if s = ''{"type":"end"}'' then Some (event End None)
      else None)\<close>

subsection \<open>The controller and the browser's side of the stream\<close>

text \<open>
  \<open>streamChatMessage\<close> creates an \<open>AbortController\<close>, hands its signal to \<open>fetch\<close> and
  returns \<open>cancel\<close>, which calls \<open>controller.abort()\<close>. What the browser does with the
  signal is its contract: once the signal is aborted, the pending \<open>fetch\<close> or the pending
  \<open>reader.read()\<close> rejects with an \<open>AbortError\<close>, and so does every later read.

  \<open>cancel\<close> can be called from two places. The page calls it from a click handler or
  from its unmount cleanup, which run while \<open>fetchSSE\<close> is suspended at an \<open>await\<close>:
  while \<open>fetch\<close> is pending, or while the read after the first \<open>n\<close> is pending. A
  listener can call it from inside \<open>onEvent\<close>, while the lines of a chunk are being
  handed over: \<open>cancelled\<close> tells of the listener's state whether it has called
  \<open>cancel\<close>.
\<close>

datatype cancel_time = Never | During_fetch | After_reads nat

text \<open>Whether the signal is aborted when the read after the first \<open>k\<close> is asked for.\<close>

definition signal_aborted :: "('s \<Rightarrow> bool) \<Rightarrow> cancel_time \<Rightarrow> nat \<Rightarrow> 's \<Rightarrow> bool" where
  "signal_aborted cancelled ext k l = (cancelled l \<or> ext = After_reads k)"

text \<open>
  What the successive \<open>reader.read()\<close> calls settle with: what the network delivers
  (\<open>script\<close>), until the signal is aborted. The loop body runs between two reads, so the
  listener's state at a read is the state after the chunks before it.
\<close>

fun browser_reads ::
  "string \<Rightarrow> ('s \<Rightarrow> bool) \<Rightarrow> cancel_time \<Rightarrow> ('d \<Rightarrow> 'b \<Rightarrow> string \<times> 'd)
     \<Rightarrow> (string \<Rightarrow> ChatStreamEvent option) \<Rightarrow> (ChatStreamEvent \<Rightarrow> 's \<Rightarrow> 's) option
     \<Rightarrow> nat \<Rightarrow> 'b read_result list \<Rightarrow> ('d, 's) sse_state \<Rightarrow> 'b read_result list" where
  "browser_reads m cancelled ext decode parse onEvent k [] st =
     (if signal_aborted cancelled ext k (listener st) then [ReadRejected (AbortError m)] else [])"
| "browser_reads m cancelled ext decode parse onEvent k (Chunk val # rest) st =
     (if signal_aborted cancelled ext k (listener st) then [ReadRejected (AbortError m)]
      else Chunk val # browser_reads m cancelled ext decode parse onEvent (Suc k) rest
             (process_chunk decode parse onEvent val st))"
| "browser_reads m cancelled ext decode parse onEvent k (Done # rest) st =
     (if signal_aborted cancelled ext k (listener st) then [ReadRejected (AbortError m)] else [Done])"
| "browser_reads m cancelled ext decode parse onEvent k (ReadRejected e # rest) st =
     (if signal_aborted cancelled ext k (listener st) then [ReadRejected (AbortError m)]
      else [ReadRejected e])"

text \<open>What \<open>fetch\<close> settles with, \<open>net\<close> being what the network would answer.\<close>

definition browser_fetch ::
  "string \<Rightarrow> ('s \<Rightarrow> bool) \<Rightarrow> cancel_time \<Rightarrow> ('d \<Rightarrow> 'b \<Rightarrow> string \<times> 'd)
     \<Rightarrow> (string \<Rightarrow> ChatStreamEvent option) \<Rightarrow> (ChatStreamEvent \<Rightarrow> 's \<Rightarrow> 's) option
     \<Rightarrow> 'b fetch_result \<Rightarrow> 'd \<Rightarrow> 's \<Rightarrow> 'b fetch_result" where
  "browser_fetch m cancelled ext decode parse onEvent net d0 l0 =
     (if ext = During_fetch then FetchRejected (AbortError m)
      else
        (case net of
           Response ok code (Some script) \<Rightarrow>
             Response ok code
               (Some (browser_reads m cancelled ext decode parse onEvent 0 script (sse_init d0 l0)))
         | _ \<Rightarrow> net))"

text \<open>\<open>streamChatMessage\<close>: \<open>fetchSSE\<close> run against the browser, with the controller in between.\<close>

definition streamChatMessage ::
  "string \<Rightarrow> ('s \<Rightarrow> bool) \<Rightarrow> cancel_time \<Rightarrow> ('d \<Rightarrow> 'b \<Rightarrow> string \<times> 'd)
     \<Rightarrow> (string \<Rightarrow> ChatStreamEvent option) \<Rightarrow> (ChatStreamEvent \<Rightarrow> 's \<Rightarrow> 's) option
     \<Rightarrow> 'b fetch_result \<Rightarrow> 'd \<Rightarrow> 's \<Rightarrow> run_status \<times> ('d, 's) sse_state" where
  "streamChatMessage m cancelled ext decode parse onEvent net d0 l0 =
     fetchSSE decode parse onEvent
       (browser_fetch m cancelled ext decode parse onEvent net d0 l0) d0 l0"

text \<open>The listener's state after the chunks \<open>cs\<close>: it has been handed the events of their complete lines.\<close>

definition heard ::
  "('d \<Rightarrow> 'b \<Rightarrow> string \<times> 'd) \<Rightarrow> (string \<Rightarrow> ChatStreamEvent option)
     \<Rightarrow> (ChatStreamEvent \<Rightarrow> 's \<Rightarrow> 's) option \<Rightarrow> 'd \<Rightarrow> 's \<Rightarrow> 'b list \<Rightarrow> 's" where
  "heard decode parse onEvent d0 l0 cs =
     deliver onEvent (events_of_lines parse (complete_lines (decode_all decode d0 cs))) l0"

text \<open>
  Two listeners that record what they are handed: one never calls \<open>cancel\<close>, the other
  calls it when it is handed the \<open>start\<close> event.
\<close>

definition never_cancels :: "ChatStreamEvent list \<Rightarrow> bool" where
  "never_cancels seen = False"

definition cancels_on_start :: "ChatStreamEvent list \<Rightarrow> bool" where
  "cancels_on_start seen = (event Start None \<in> set seen)"


section \<open>The legacy wrapper sendChatMessage\<close>

text \<open>
  The value the promise resolves with, \<open>{success, data: {response, session_id,
  tools_used}}\<close>, and the promise itself. A promise settles once: \<open>resolve\<close> and
  \<open>reject\<close> on a settled promise do nothing.
\<close>

record chat_reply =
  success :: bool
  response :: string
  reply_session_id :: string
  reply_tools_used :: "string list"

datatype promise = Pending | Resolved chat_reply | Rejected js_error

record send_state =
  finalResponse :: string
  finalSessionId :: string
  toolsUsed :: "string list"
  settled :: promise

definition resolve :: "chat_reply \<Rightarrow> send_state \<Rightarrow> send_state" where
  "resolve v st = (if settled st = Pending then st\<lparr>settled := Resolved v\<rparr> else st)"

definition reject :: "js_error \<Rightarrow> send_state \<Rightarrow> send_state" where
  "reject e st = (if settled st = Pending then st\<lparr>settled := Rejected e\<rparr> else st)"

text \<open>The callback that \<open>sendChatMessage\<close> passes to \<open>streamChatMessage\<close>: its \<open>switch\<close>.\<close>

definition send_onEvent :: "ChatStreamEvent \<Rightarrow> send_state \<Rightarrow> send_state" where
  "send_onEvent ev st =
     (case etype ev of
        Content \<Rightarrow>
          (if truthy_opt (message ev)
           then st\<lparr>finalResponse := finalResponse st @ message_text ev @ '' ''\<rparr> else st)
      | Complete \<Rightarrow>
          (let st1 = (if truthy_opt (message ev) then st\<lparr>finalResponse := message_text ev\<rparr> else st);
               st2 = (if truthy_opt (session_id ev)
                      then st1\<lparr>finalSessionId := or_else (session_id ev) []\<rparr> else st1)
           in (case tools_used ev of Some ts \<Rightarrow> st2\<lparr>toolsUsed := ts\<rparr> | None \<Rightarrow> st2))
      | End \<Rightarrow>
          resolve \<lparr>success = True, response = trim (finalResponse st),
                   reply_session_id = finalSessionId st, reply_tools_used = toolsUsed st\<rparr> st
      | Error \<Rightarrow> reject (new_Error (or_else (message ev) ''Chat failed'')) st
      | _ \<Rightarrow> st)"

definition send_init :: "string option \<Rightarrow> send_state" where
  "send_init sessionId =
     \<lparr>finalResponse = [], finalSessionId = or_else sessionId [], toolsUsed = [], settled = Pending\<rparr>"

text \<open>The promise of \<open>sendChatMessage\<close> after the stream has run as far as the reads go.\<close>

definition sendChatMessage ::
  "('d \<Rightarrow> 'b \<Rightarrow> string \<times> 'd) \<Rightarrow> (string \<Rightarrow> ChatStreamEvent option) \<Rightarrow> 'b fetch_result
     \<Rightarrow> 'd \<Rightarrow> string option \<Rightarrow> promise" where
  "sendChatMessage decode parse fr d0 sessionId =
     settled (listener (snd (fetchSSE decode parse (Some send_onEvent) fr d0 (send_init sessionId))))"

text \<open>The same after a given sequence of events has been delivered to the callback.\<close>

definition send_after :: "string option \<Rightarrow> ChatStreamEvent list \<Rightarrow> send_state" where
  "send_after sessionId evs = deliver (Some send_onEvent) evs (send_init sessionId)"

text \<open>Vocabulary for the events that matter to the wrapper.\<close>

definition settles :: "ChatStreamEvent \<Rightarrow> bool" where
  "settles ev = (etype ev = End \<or> etype ev = Error)"

definition complete_with_message :: "ChatStreamEvent \<Rightarrow> bool" where
  "complete_with_message ev = (etype ev = Complete \<and> truthy_opt (message ev))"

definition sets_session :: "ChatStreamEvent \<Rightarrow> bool" where
  "sets_session ev = (etype ev = Complete \<and> truthy_opt (session_id ev))"

definition sets_tools :: "ChatStreamEvent \<Rightarrow> bool" where
  "sets_tools ev = (etype ev = Complete \<and> tools_used ev \<noteq> None)"

definition tools_list :: "ChatStreamEvent \<Rightarrow> string list" where
  "tools_list ev = (case tools_used ev of None \<Rightarrow> [] | Some ts \<Rightarrow> ts)"

definition content_text :: "ChatStreamEvent list \<Rightarrow> string" where
  "content_text evs =
     concat (map (\<lambda>ev. message_text ev @ '' '')
       (filter (\<lambda>ev. etype ev = Content \<and> truthy_opt (message ev)) evs))"


section \<open>The Reports page\<close>

text \<open>\<open>ReportGenerationResult\<close> and \<open>ReportTaskStatus\<close> of \<open>services/api.ts\<close>.\<close>

record ReportGenerationResult =
  report_filename :: string
  report_path :: string
  result_topic :: string
  report_type :: string
  result_format :: string
  charts_generated :: "nat option"
  sections_generated :: "nat option"
  generated_at :: "string option"

record ReportTaskStatus =
  status :: string
  progress :: "nat option"
  task_message :: "string option"
  result :: "ReportGenerationResult option"
  task_error :: "string option"

text \<open>
  How a call of \<open>getReportTaskStatus\<close> ends inside the interval callback: the request
  or the reading of the response throws, or \<open>response.data\<close> is there or is not.
\<close>

datatype poll_outcome = PollThrew | PollResponse "ReportTaskStatus option"

text \<open>
  How the call of \<open>generateReportBackground\<close> ends: it throws, with
  \<open>err.response?.data?.detail\<close> present or not, or it returns \<open>success\<close> and the
  \<open>task_id\<close> of \<open>data\<close>, absent when \<open>data\<close> or \<open>task_id\<close> is.
\<close>

datatype submit_outcome = SubmitThrew "string option" | SubmitResponse bool "string option"

record GeneratedReport =
  filename :: string
  report_topic :: string
  rtype :: string
  generatedAt :: nat

text \<open>The requests the page issues through the axios instance.\<close>

record ReportRequest =
  req_topic :: string
  req_report_type :: string
  req_format :: string
  use_langgraph :: bool

datatype http_request =
  POST_generate_background ReportRequest
| GET_report_task string

text \<open>
  An interval registered with \<open>window.setInterval\<close>: its identifier, its delay in
  milliseconds, and what its callback closes over (the task identifier, and the
  \<open>topic\<close> and \<open>reportType\<close> of the render that started it).
\<close>

record interval =
  interval_id :: nat
  delay :: nat
  taskId :: string
  closed_topic :: string
  closed_reportType :: string

text \<open>
  The state of the component (its \<open>useState\<close> cells and the ref) together with what it
  acts on: the intervals registered in the window, the last identifier the window
  handed out, the clock in milliseconds, the requests issued with the time of each,
  and the console.
\<close>

record page =
  topic :: string
  reportType :: string
  format :: string
  isGenerating :: bool
  pollingStatus :: string
  error :: "string option"
  generatedReports :: "GeneratedReport list"
  pollingIntervalRef :: "nat option"
  intervals :: "interval list"
  last_interval_id :: nat
  clock :: nat
  requests :: "(nat \<times> http_request) list"
  page_console :: "string list"

definition initial_page :: page where
  "initial_page =
     \<lparr>topic = [], reportType = ''comprehensive'', format = ''pdf'', isGenerating = False,
      pollingStatus = [], error = None, generatedReports = [], pollingIntervalRef = None,
      intervals = [], last_interval_id = 0, clock = 0, requests = [], page_console = []\<rparr>"

definition window_clearInterval :: "nat \<Rightarrow> page \<Rightarrow> page" where
  "window_clearInterval i s = s\<lparr>intervals := filter (\<lambda>t. interval_id t \<noteq> i) (intervals s)\<rparr>"

text \<open>\<open>if (pollingIntervalRef.current) window.clearInterval(pollingIntervalRef.current)\<close>.\<close>

definition clear_current :: "page \<Rightarrow> page" where
  "clear_current s =
     (case pollingIntervalRef s of
        None \<Rightarrow> s
      | Some i \<Rightarrow> if i \<noteq> 0 then window_clearInterval i s else s)"

text \<open>The cleanup that \<open>useEffect\<close> returns, run when the component unmounts.\<close>

definition unmount_cleanup :: "page \<Rightarrow> page" where
  "unmount_cleanup s = clear_current s"

text \<open>
  \<open>pollStatus\<close>, called with what the calling render closes over. The window hands
  out a fresh, positive identifier.
\<close>

definition pollStatus :: "string \<times> string \<Rightarrow> string \<Rightarrow> page \<Rightarrow> page" where
  "pollStatus closed tid s =
     (let s1 = clear_current s;
          i = Suc (last_interval_id s1);
          t = \<lparr>interval_id = i, delay = 10000, taskId = tid,
               closed_topic = fst closed, closed_reportType = snd closed\<rparr>
      in s1\<lparr>intervals := intervals s1 @ [t], last_interval_id := i, pollingIntervalRef := Some i\<rparr>)"

text \<open>
  The interval callback, from the point where \<open>await getReportTaskStatus(taskId)\<close> has
  settled: the \<open>try\<close> block and its \<open>catch\<close>.
\<close>

definition poll_settle :: "interval \<Rightarrow> poll_outcome \<Rightarrow> page \<Rightarrow> page" where
  "poll_settle t out s =
     (case out of
        PollThrew \<Rightarrow> s\<lparr>page_console := page_console s @ [''Polling error'']\<rparr>
      | PollResponse None \<Rightarrow> s
      | PollResponse (Some task) \<Rightarrow>
          if status task = ''completed'' then
            (let s1 = (clear_current s)\<lparr>isGenerating := False, pollingStatus := []\<rparr>
             in case result task of
                  None \<Rightarrow> s1
                | Some r \<Rightarrow>
                    if truthy (report_filename r) then
                      s1\<lparr>generatedReports :=
                            \<lparr>filename = report_filename r,
                             report_topic = or_str (result_topic r) (closed_topic t),
                             rtype = or_str (report_type r) (closed_reportType t),
                             generatedAt = clock s\<rparr> # generatedReports s1,
                         topic := []\<rparr>
                    else s1)
          else if status task = ''failed'' then
            (clear_current s)\<lparr>isGenerating := False, pollingStatus := [],
               error := Some (or_else (task_error task) ''Report generation failed'')\<rparr>
          else s\<lparr>pollingStatus := or_else (task_message task) ''Processing...''\<rparr>)"

text \<open>The interval callback up to its \<open>await\<close>: it issues the status request.\<close>

definition poll_request :: "interval \<Rightarrow> page \<Rightarrow> page" where
  "poll_request t s = s\<lparr>requests := requests s @ [(clock s, GET_report_task (taskId t))]\<rparr>"

text \<open>
  \<open>handleGenerate\<close> up to its \<open>await\<close>: either the early return, or the state updates
  and the request, with what the continuation closes over.
\<close>

definition handleGenerate_begin :: "page \<Rightarrow> page \<times> (string \<times> string) option" where
  "handleGenerate_begin s =
     (if \<not> truthy (trim (topic s)) then (s\<lparr>error := Some ''Please enter a topic''\<rparr>, None)
      else
        (s\<lparr>isGenerating := True, error := None,
           pollingStatus := ''Initializing report generation...'',
           requests := requests s @
             [(clock s, POST_generate_background
                 \<lparr>req_topic = trim (topic s), req_report_type = reportType s,
                  req_format = format s, use_langgraph = True\<rparr>)]\<rparr>,
         Some (topic s, reportType s)))"

text \<open>\<open>handleGenerate\<close> from the point where the request has settled.\<close>

definition handleGenerate_resume :: "string \<times> string \<Rightarrow> submit_outcome \<Rightarrow> page \<Rightarrow> page" where
  "handleGenerate_resume closed out s =
     (case out of
        SubmitResponse ok tid \<Rightarrow>
          if ok \<and> truthy_opt tid then pollStatus closed (or_else tid []) s
          else s\<lparr>error := Some ''Failed to start report generation. Please try again.'',
                 isGenerating := False\<rparr>
      | SubmitThrew detail \<Rightarrow>
          s\<lparr>page_console := page_console s @ [''Report generation failed:''],
            error := Some (or_else detail ''Failed to generate report''),
            isGenerating := False\<rparr>)"

text \<open>\<open>handleGenerate\<close> when nothing else runs between the request and its answer.\<close>

definition handleGenerate :: "submit_outcome \<Rightarrow> page \<Rightarrow> page" where
  "handleGenerate out s =
     (case handleGenerate_begin s of
        (s1, None) \<Rightarrow> s1
      | (s1, Some closed) \<Rightarrow> handleGenerate_resume closed out s1)"

text \<open>An outcome that ends the polling: a task reported as completed or as failed.\<close>

definition terminal :: "poll_outcome \<Rightarrow> bool" where
  "terminal out =
     (case out of
        PollResponse (Some task) \<Rightarrow> status task = ''completed'' \<or> status task = ''failed''
      | _ \<Rightarrow> False)"


text \<open>
  What can happen on the page, one step at a time: the user edits the form, clicks
  Generate (\<open>handleGenerate\<close> runs to its \<open>await\<close>), the submission settles and
  \<open>handleGenerate\<close> resumes, an interval callback issues its request, a status request
  settles and the callback resumes, time passes, the component unmounts. The callback
  is asynchronous: between its request and the answer anything else may happen, a
  later firing included, and an answer may arrive after the interval that asked was
  cleared. \<open>Interval_fires\<close> is the window's own step: the delay of the registered
  interval has elapsed since it was registered or last fired, and its callback runs up
  to the \<open>await\<close>; with no interval registered nothing runs.
\<close>

datatype page_event =
  SetTopic string
| SetReportType string
| SetFormat string
| Generate_begin
| Generate_resume "string \<times> string" submit_outcome
| Interval_request interval
| Interval_settle interval poll_outcome
| Time_passes nat
| Unmount
| Interval_fires

fun page_step :: "page_event \<Rightarrow> page \<Rightarrow> page" where
  "page_step (SetTopic v) s = s\<lparr>topic := v\<rparr>"
| "page_step (SetReportType v) s = s\<lparr>reportType := v\<rparr>"
| "page_step (SetFormat v) s = s\<lparr>format := v\<rparr>"
| "page_step Generate_begin s = fst (handleGenerate_begin s)"
| "page_step (Generate_resume closed out) s = handleGenerate_resume closed out s"
| "page_step (Interval_request t) s = poll_request t s"
| "page_step (Interval_settle t out) s = poll_settle t out s"
| "page_step (Time_passes d) s = s\<lparr>clock := clock s + d\<rparr>"
| "page_step Unmount s = unmount_cleanup s"
| "page_step Interval_fires s =
     (case intervals s of
        [] \<Rightarrow> s
      | t # ts \<Rightarrow> poll_request t (s\<lparr>clock := clock s + delay t\<rparr>))"

definition run_events :: "page_event list \<Rightarrow> page \<Rightarrow> page" where
  "run_events evs s = foldl (\<lambda>s ev. page_step ev s) s evs"

text \<open>Every registered interval is the one the ref holds, and there is at most one.\<close>

definition interval_inv :: "page \<Rightarrow> bool" where
  "interval_inv s =
     (case intervals s of
        [] \<Rightarrow> True
      | [t] \<Rightarrow> pollingIntervalRef s = Some (interval_id t) \<and> interval_id t \<noteq> 0
      | _ \<Rightarrow> False)"

text \<open>
  A status lookup that finds no task. The backend is not part of these sources, so
  every way the answer can reach the callback is covered: the request or the reading
  of the response throws (an HTTP error status makes axios throw), the response
  carries no \<open>data\<close>, or \<open>data\<close> carries a status other than the four of
  \<open>ReportTaskStatus\<close>.
\<close>

definition not_found :: "poll_outcome \<Rightarrow> bool" where
  "not_found out =
     (case out of
        PollThrew \<Rightarrow> True
      | PollResponse None \<Rightarrow> True
      | PollResponse (Some task) \<Rightarrow>
          status task \<notin> {''pending'', ''processing'', ''completed'', ''failed''})"

text \<open>The page polls with the interval \<open>t\<close>: it is the one registered interval and the ref holds it.\<close>

definition polling :: "interval \<Rightarrow> page \<Rightarrow> bool" where
  "polling t s = (intervals s = [t] \<and> pollingIntervalRef s = Some (interval_id t) \<and> interval_id t \<noteq> 0)"

text \<open>
  The events of a polling phase that has not ended: firings of the interval, and
  answers that are not terminal, to whichever callback asked. And the same with
  answers that found no task.
\<close>

definition quiet :: "page_event \<Rightarrow> bool" where
  "quiet ev =
     (case ev of
        Interval_fires \<Rightarrow> True
      | Interval_settle t out \<Rightarrow> \<not> terminal out
      | _ \<Rightarrow> False)"

definition finds_no_task :: "page_event \<Rightarrow> bool" where
  "finds_no_task ev =
     (case ev of
        Interval_fires \<Rightarrow> True
      | Interval_settle t out \<Rightarrow> not_found out
      | _ \<Rightarrow> False)"

definition is_firing :: "page_event \<Rightarrow> bool" where
  "is_firing ev = (case ev of Interval_fires \<Rightarrow> True | _ \<Rightarrow> False)"

definition firings :: "page_event list \<Rightarrow> nat" where
  "firings evs = length (filter is_firing evs)"

text \<open>The times of \<open>n\<close> firings of an interval of delay \<open>d\<close> registered at \<open>t0\<close>.\<close>

fun poll_times :: "nat \<Rightarrow> nat \<Rightarrow> nat \<Rightarrow> nat list" where
  "poll_times t0 d 0 = []"
| "poll_times t0 d (Suc n) = (t0 + d) # poll_times (t0 + d) d n"

text \<open>Two task records for the evaluation of a concrete polling run.\<close>

definition task_processing :: ReportTaskStatus where
  "task_processing =
     \<lparr>status = ''processing'', progress = None, task_message = Some ''Generating sections...'',
      result = None, task_error = None\<rparr>"


definition task_completed :: ReportTaskStatus where
  "task_completed =
     \<lparr>status = ''completed'', progress = None, task_message = None,
      result = Some \<lparr>report_filename = ''fintech-analysis.pdf'', report_path = ''reports/fintech-analysis.pdf'',
                     result_topic = ''Fintech market analysis'', report_type = ''market_research'',
                     result_format = ''pdf'', charts_generated = None, sections_generated = None,
                     generated_at = None\<rparr>,
      task_error = None\<rparr>"

text \<open>A completed task whose result names no file, and one that carries no result.\<close>

definition task_completed_unnamed :: ReportTaskStatus where
  "task_completed_unnamed =
     \<lparr>status = ''completed'', progress = None, task_message = None,
      result = Some \<lparr>report_filename = [], report_path = [],
                     result_topic = ''Fintech market analysis'', report_type = ''market_research'',
                     result_format = ''pdf'', charts_generated = None, sections_generated = None,
                     generated_at = None\<rparr>,
      task_error = None\<rparr>"

definition task_completed_bare :: ReportTaskStatus where
  "task_completed_bare =
     \<lparr>status = ''completed'', progress = None, task_message = None, result = None,
      task_error = None\<rparr>"

text \<open>The first interval the window hands out, for a task and what its callback closes over.\<close>

definition interval_1 :: "string \<Rightarrow> string \<Rightarrow> string \<Rightarrow> interval" where
  "interval_1 tid tp ty =
     \<lparr>interval_id = 1, delay = 10000, taskId = tid, closed_topic = tp, closed_reportType = ty\<rparr>"

section \<open>Company search and report download\<close>

datatype param_value = Str string | Num int

record CompanySearchFilters =
  industry :: "string option"
  location :: "string option"
  min_year :: "int option"
  stage :: "string option"

text \<open>\<open>filters?.field\<close>: absent when \<open>filters\<close> is.\<close>

definition opt_field ::
  "(CompanySearchFilters \<Rightarrow> 'a option) \<Rightarrow> CompanySearchFilters option \<Rightarrow> 'a option" where
  "opt_field f filters = (case filters of None \<Rightarrow> None | Some fs \<Rightarrow> f fs)"

text \<open>
  The \<open>params\<close> object that \<open>searchCompanies\<close> builds, as its entries in insertion
  order. \<open>lim\<close> is absent when the caller leaves the default in place.
\<close>

definition searchCompanies_params ::
  "string \<Rightarrow> int option \<Rightarrow> CompanySearchFilters option \<Rightarrow> (string \<times> param_value) list" where
  "searchCompanies_params q lim filters =
     [(''query'', Str q), (''limit'', Num (case lim of None \<Rightarrow> 50 | Some n \<Rightarrow> n))]
     @ (case opt_field industry filters of
          Some i \<Rightarrow> if truthy i \<and> toLowerCase i \<noteq> ''all'' then [(''industry'', Str i)] else []
        | None \<Rightarrow> [])
     @ (case opt_field location filters of
          Some l \<Rightarrow> if truthy l then [(''location'', Str l)] else []
        | None \<Rightarrow> [])
     @ (case opt_field min_year filters of
          Some y \<Rightarrow> if y \<noteq> 0 then [(''min_year'', Num y)] else []
        | None \<Rightarrow> [])
     @ (case opt_field stage filters of
          Some g \<Rightarrow> if truthy g then [(''stage'', Str g)] else []
        | None \<Rightarrow> [])"

text \<open>The request of \<open>searchCompanies\<close>: the path under the base URL of the axios instance, and the parameters.\<close>

definition searchCompanies ::
  "string \<Rightarrow> int option \<Rightarrow> CompanySearchFilters option \<Rightarrow> string \<times> (string \<times> param_value) list" where
  "searchCompanies q lim filters = (''/companies'', searchCompanies_params q lim filters)"

text \<open>
  \<open>API_BASE_URL\<close> is \<open>import.meta.env.VITE_API_URL || 'http://localhost:8000'\<close>; the
  environment variable is a parameter.
\<close>

definition API_BASE_URL :: "string option \<Rightarrow> string" where
  "API_BASE_URL env = or_else env ''http://localhost:8000''"

definition downloadReport :: "string option \<Rightarrow> string \<Rightarrow> string" where
  "downloadReport env fname = API_BASE_URL env @ ''/api/v1/download-report/'' @ fname"


text \<open>The value a request carries for a parameter, if it carries it.\<close>

definition request_params :: "string \<times> (string \<times> param_value) list \<Rightarrow> string \<Rightarrow> param_value option" where
  "request_params req k = map_of (snd req) k"

section \<open>Properties of the string helpers\<close>

lemma lower_char_adds_32:
  "(65::nat) \<le> of_char c \<Longrightarrow> of_char c \<le> (90::nat) \<Longrightarrow> of_char (lower_char c) = of_char c + (32::nat)"
  by (cases c) (auto simp: lower_char_def of_bool_def split: if_splits)

lemma string_of_nat_500: "string_of_nat 500 = ''500''"
  by (simp add: string_of_nat.simps)

section \<open>Properties of the SSE reader\<close>

subsection \<open>Splitting at newlines\<close>

lemma split_nl_nonempty [simp]: "split_nl s \<noteq> []"
  by (induction s) (auto split: list.splits)

lemma pop_or_empty_last [simp]: "pop_or_empty (split_nl s) = last (split_nl s)"
  by (simp add: pop_or_empty_def truthy_def)


lemma split_nl_append:
  "split_nl (a @ b) =
     butlast (split_nl a) @ ((last (split_nl a) @ hd (split_nl b)) # tl (split_nl b))"
proof (induction a)
  case Nil
  then show ?case by simp
next
  case (Cons c cs)
  obtain s1 S where S: "split_nl cs = s1 # S"
    by (cases "split_nl cs") auto
  show ?case
  proof (cases S)
    case Nil
    with S Cons show ?thesis by simp
  next
    case (Cons s2 S')
    with S Cons.IH show ?thesis by simp
  qed
qed

lemma split_nl_no_newline: "newline \<notin> set s \<Longrightarrow> split_nl s = [s]"
  by (induction s) auto

lemma last_split_no_newline: "newline \<notin> set (last (split_nl s))"
proof (induction s)
  case Nil
  then show ?case by simp
next
  case (Cons c cs)
  obtain s1 S where S: "split_nl cs = s1 # S"
    by (cases "split_nl cs") auto
  with Cons show ?case by (cases S) auto
qed

lemma butlast_split_no_newline: "l \<in> set (split_nl s) \<Longrightarrow> newline \<notin> set l"
proof (induction s arbitrary: l)
  case Nil
  then show ?case by simp
next
  case (Cons c cs)
  obtain s1 S where S: "split_nl cs = s1 # S"
    by (cases "split_nl cs") auto
  with Cons show ?case by (auto split: if_splits)
qed

lemma split_append:
  "complete_lines (a @ b) = complete_lines a @ complete_lines (partial_line a @ b)"
  "partial_line (a @ b) = partial_line (partial_line a @ b)"
proof -
  let ?p = "partial_line a"
  have p: "split_nl ?p = [?p]"
    unfolding partial_line_def by (rule split_nl_no_newline) (rule last_split_no_newline)
  have 1: "split_nl (?p @ b) = (?p @ hd (split_nl b)) # tl (split_nl b)"
    using split_nl_append [of ?p b] p by simp
  have 2: "split_nl (a @ b) = butlast (split_nl a) @ split_nl (?p @ b)"
    using split_nl_append [of a b] 1 by (simp add: partial_line_def)
  show "complete_lines (a @ b) = complete_lines a @ complete_lines (partial_line a @ b)"
    unfolding complete_lines_def 2 by (simp add: butlast_append)
  show "partial_line (a @ b) = partial_line (partial_line a @ b)"
    unfolding partial_line_def using 2 by (simp add: partial_line_def)
qed

lemma complete_lines_partial [simp]: "complete_lines (partial_line s) = []"
  unfolding complete_lines_def partial_line_def
  by (simp add: split_nl_no_newline last_split_no_newline)

lemma split_nl_join:
  "concat (map (\<lambda>l. l @ [newline]) (complete_lines s)) @ partial_line s = s"
proof (induction s)
  case Nil
  then show ?case by (simp add: complete_lines_def partial_line_def)
next
  case (Cons c cs)
  obtain s1 S where S: "split_nl cs = s1 # S"
    by (cases "split_nl cs") auto
  with Cons show ?case by (cases S) (auto simp: complete_lines_def partial_line_def)
qed


lemma deliver_append:
  "deliver onEvent (xs @ ys) l = deliver onEvent ys (deliver onEvent xs l)"
  by (cases onEvent) (simp_all add: deliver_def)

lemma process_line_effect:
  "process_line parse onEvent line st =
     st\<lparr>listener := deliver onEvent (events_of_lines parse [line]) (listener st),
        console := console st @ map SSE_parse_failed (filter (malformed parse) [line])\<rparr>"
  by (cases onEvent)
     (auto simp: process_line_def events_of_lines_def List.map_filter_def decode_line_def
        malformed_def deliver_def call_onEvent_def Let_def split: option.splits)

lemma events_of_lines_append:
  "events_of_lines parse (xs @ ys) = events_of_lines parse xs @ events_of_lines parse ys"
  by (simp add: events_of_lines_def List.map_filter_def)

lemma foldl_process_line:
  "foldl (\<lambda>s line. process_line parse onEvent line s) st ls =
     st\<lparr>listener := deliver onEvent (events_of_lines parse ls) (listener st),
        console := console st @ map SSE_parse_failed (filter (malformed parse) ls)\<rparr>"
proof (induction ls arbitrary: st)
  case Nil
  then show ?case
    by (cases onEvent) (simp_all add: events_of_lines_def List.map_filter_def deliver_def)
next
  case (Cons l ls)
  have "events_of_lines parse (l # ls) = events_of_lines parse [l] @ events_of_lines parse ls"
    using events_of_lines_append [of parse "[l]" ls] by simp
  then show ?case
    by (simp add: Cons.IH process_line_effect [of parse onEvent l st] deliver_append)
qed

lemma process_chunk_effect:
  "decode (dstate st) val = (t, d1) \<Longrightarrow>
   process_chunk decode parse onEvent val st =
     st\<lparr>dstate := d1, buffer := partial_line (buffer st @ t),
        listener := deliver onEvent (events_of_lines parse (complete_lines (buffer st @ t))) (listener st),
        console := console st @
          map SSE_parse_failed (filter (malformed parse) (complete_lines (buffer st @ t)))\<rparr>"
  by (simp add: process_chunk_def foldl_process_line complete_lines_def partial_line_def Let_def)

lemma read_loop_chunks:
  "complete_lines (buffer st) = [] \<Longrightarrow>
   read_loop decode parse onEvent (map Chunk cs) st =
     (Suspended,
      st\<lparr>dstate := decoder_after decode (dstate st) cs,
         buffer := partial_line (buffer st @ decode_all decode (dstate st) cs),
         listener := deliver onEvent
           (events_of_lines parse (complete_lines (buffer st @ decode_all decode (dstate st) cs)))
           (listener st),
         console := console st @ map SSE_parse_failed
           (filter (malformed parse) (complete_lines (buffer st @ decode_all decode (dstate st) cs)))\<rparr>)"
proof (induction cs arbitrary: st)
  case Nil
  have "partial_line (buffer st) = buffer st"
    using Nil split_nl_join [of "buffer st"] by simp
  with Nil show ?case
    by (cases onEvent) (simp_all add: events_of_lines_def List.map_filter_def deliver_def)
next
  case (Cons c cs)
  obtain t d1 where dec: "decode (dstate st) c = (t, d1)"
    by (cases "decode (dstate st) c") auto
  let ?st = "process_chunk decode parse onEvent c st"
  have eff: "?st = st\<lparr>dstate := d1, buffer := partial_line (buffer st @ t),
        listener := deliver onEvent (events_of_lines parse (complete_lines (buffer st @ t))) (listener st),
        console := console st @
          map SSE_parse_failed (filter (malformed parse) (complete_lines (buffer st @ t)))\<rparr>"
    using dec by (rule process_chunk_effect [of decode st c t d1 parse onEvent])
  have inv: "complete_lines (buffer ?st) = []"
    by (simp add: eff)
  have dtext: "decode_all decode (dstate st) (c # cs) = t @ decode_all decode d1 cs"
    by (simp add: dec)
  let ?X = "decode_all decode d1 cs"
  have sp1: "complete_lines (buffer st @ t @ ?X) =
      complete_lines (buffer st @ t) @ complete_lines (partial_line (buffer st @ t) @ ?X)"
    using split_append(1) [of "buffer st @ t" ?X] by simp
  have sp2: "partial_line (buffer st @ t @ ?X) = partial_line (partial_line (buffer st @ t) @ ?X)"
    using split_append(2) [of "buffer st @ t" ?X] by simp
  show ?case
    using Cons.IH [OF inv]
    by (simp add: eff dec sp1 sp2 events_of_lines_append deliver_append)
qed


lemma read_loop_append:
  "read_loop decode parse onEvent (pre @ rest) st =
     (case read_loop decode parse onEvent pre st of
        (Returned, st1) \<Rightarrow> (Returned, st1)
      | (Suspended, st1) \<Rightarrow> read_loop decode parse onEvent rest st1)"
proof (induction pre arbitrary: st)
  case Nil
  then show ?case by simp
next
  case (Cons r pre)
  then show ?case by (cases r) simp_all
qed

lemma catch_outer_abort [simp]: "catch_outer onEvent (AbortError m) st = st"
  by (simp add: catch_outer_def AbortError_def)

lemma sse_init_sel [simp]:
  "dstate (sse_init d0 l0) = d0" "buffer (sse_init d0 l0) = []"
  "listener (sse_init d0 l0) = l0" "console (sse_init d0 l0) = []"
  by (simp_all add: sse_init_def)

lemma complete_lines_Nil [simp]: "complete_lines [] = []"
  by (simp add: complete_lines_def)

lemma deliver_record: "deliver (Some record_event) evs seen = seen @ evs"
  by (induction evs arbitrary: seen) (simp_all add: deliver_def record_event_def)

lemmas sse_eval =
  decode_ascii_def complete_lines_def partial_line_def events_of_lines_def List.map_filter_def
  decode_line_def malformed_def startsWith_def truthy_def trim_def is_space_def
  parse_sample_def newline_def deliver_def record_event_def


lemma fetchSSE_chunks:
  "fetchSSE decode parse onEvent (Response True code (Some (map Chunk cs))) d0 l0 =
     (Suspended,
      \<lparr>dstate = decoder_after decode d0 cs,
       buffer = partial_line (decode_all decode d0 cs),
       listener = deliver onEvent
         (events_of_lines parse (complete_lines (decode_all decode d0 cs))) l0,
       console = map SSE_parse_failed
         (filter (malformed parse) (complete_lines (decode_all decode d0 cs)))\<rparr>)"
  using read_loop_chunks [of "sse_init d0 l0" decode parse onEvent cs]
  by (simp add: fetchSSE_def sse_init_def)

lemma fetchSSE_chunks_Done:
  "fetchSSE decode parse onEvent (Response True code (Some (map Chunk cs @ Done # rest))) d0 l0 =
     (Returned, snd (fetchSSE decode parse onEvent (Response True code (Some (map Chunk cs))) d0 l0))"
proof -
  obtain st1 where pre: "read_loop decode parse onEvent (map Chunk cs) (sse_init d0 l0) = (Suspended, st1)"
    using read_loop_chunks [of "sse_init d0 l0" decode parse onEvent cs] by simp
  then show ?thesis
    by (simp add: fetchSSE_def read_loop_append)
qed

lemma malformed_single:
  "startsWith l ''data: '' \<Longrightarrow> parse (drop 6 l) = None \<Longrightarrow>
   events_of_lines parse [l] = []
   \<and> filter (malformed parse) [l] = (if truthy (trim (drop 6 l)) then [l] else [])"
  by (simp add: events_of_lines_def List.map_filter_def decode_line_def malformed_def)

text \<open>
  Claim C1. For every sequence of chunks that the reader of \<open>streamChatMessage\<close> has
  received, the callback has been handed exactly the events decoded from the lines that
  a newline has completed in the text so far, in the order of those lines; the text
  after the last newline is what \<open>buffer\<close> holds, undecoded, until a later chunk
  completes it. The statement holds after every chunk, since \<open>cs\<close> is any sequence of
  chunks received so far. The third and fourth parts say that the complete lines and
  the partial line are the text cut at its newlines; the last, that the end of the
  stream delivers nothing more: a line that no newline completed is never decoded.
\<close>

theorem sse_complete_lines_in_order:
  "fetchSSE decode parse onEvent (Response True code (Some (map Chunk cs))) d0 l0 =
     (Suspended,
      \<lparr>dstate = decoder_after decode d0 cs,
       buffer = partial_line (decode_all decode d0 cs),
       listener = deliver onEvent
         (events_of_lines parse (complete_lines (decode_all decode d0 cs))) l0,
       console = map SSE_parse_failed
         (filter (malformed parse) (complete_lines (decode_all decode d0 cs)))\<rparr>)
   \<and> listener (snd (fetchSSE decode parse (Some record_event)
         (Response True code (Some (map Chunk cs))) d0 [])) =
       events_of_lines parse (complete_lines (decode_all decode d0 cs))
   \<and> concat (map (\<lambda>l. l @ [newline]) (complete_lines (decode_all decode d0 cs)))
         @ partial_line (decode_all decode d0 cs) = decode_all decode d0 cs
   \<and> newline \<notin> set (partial_line (decode_all decode d0 cs))
   \<and> fetchSSE decode parse onEvent (Response True code (Some (map Chunk cs @ [Done]))) d0 l0 =
       (Returned,
        snd (fetchSSE decode parse onEvent (Response True code (Some (map Chunk cs))) d0 l0))"
proof -
  have nl: "newline \<notin> set (partial_line (decode_all decode d0 cs))"
    by (simp add: partial_line_def last_split_no_newline)
  show ?thesis
    using fetchSSE_chunks [of decode parse onEvent code cs d0 l0]
      fetchSSE_chunks [of decode parse "Some record_event" code cs d0 "[]"] nl
      fetchSSE_chunks_Done [of decode parse onEvent code cs "[]" d0 l0]
    by (simp add: deliver_record split_nl_join)
qed

theorem sse_complete_lines_in_order_witness:
  \<open>fetchSSE decode_ascii parse_sample (Some record_event)
     (Response True 200 (Some (map Chunk
        [''data: {"type":"sta'',
         ''rt"}'' @ [newline, newline] @ ''data: {"type":"end"}'' @ [newline] @ ''da'']))) () [] =
   (Suspended,
    \<lparr>dstate = (), buffer = ''da'', listener = [event Start None, event End None], console = []\<rparr>)\<close>
  using sse_complete_lines_in_order [of decode_ascii parse_sample "Some record_event" 200
     \<open>[''data: {"type":"sta'',
       ''rt"}'' @ [newline, newline] @ ''data: {"type":"end"}'' @ [newline] @ ''da'']\<close> "()" "[]"]
  by (simp add: sse_eval)


text \<open>A response that is not \<open>ok\<close> is logged and reported to the listener as an \<open>error\<close> event.\<close>

lemma http_error_reported:
  "fetchSSE decode parse (Some record_event) (Response False 500 body) d0 [] =
     (Returned,
      \<lparr>dstate = d0, buffer = [],
       listener = [error_event ''Error: HTTP error! status: 500''],
       console = [SSE_chat_error (new_Error ''HTTP error! status: 500'')]\<rparr>)"
  by (simp add: fetchSSE_def catch_outer_def call_onEvent_def record_event_def new_Error_def
      js_String_def string_of_nat_500 sse_init_def)


lemma browser_reads_until_abort:
  assumes "\<forall>k<length cs. \<not> signal_aborted cancelled ext (k0 + k)
              (listener (snd (read_loop decode parse onEvent (map Chunk (take k cs)) st)))"
    and "signal_aborted cancelled ext (k0 + length cs)
              (listener (snd (read_loop decode parse onEvent (map Chunk cs) st)))"
  shows "browser_reads m cancelled ext decode parse onEvent k0 (map Chunk cs @ rest) st =
           map Chunk cs @ [ReadRejected (AbortError m)]"
  using assms
proof (induction cs arbitrary: k0 st)
  case Nil
  then have ab: "signal_aborted cancelled ext k0 (listener st)" by simp
  show ?case
  proof (cases rest)
    case Nil
    with ab show ?thesis by simp
  next
    case (Cons r rs)
    with ab show ?thesis by (cases r) simp_all
  qed
next
  case (Cons c cs)
  have now: "\<not> signal_aborted cancelled ext k0 (listener st)"
    using Cons.prems(1) [rule_format, of 0] by simp
  have later: "\<forall>k<length cs. \<not> signal_aborted cancelled ext (Suc k0 + k)
      (listener (snd (read_loop decode parse onEvent (map Chunk (take k cs))
         (process_chunk decode parse onEvent c st))))"
  proof (intro allI impI)
    fix k assume "k < length cs"
    then have "Suc k < length (c # cs)" by simp
    from Cons.prems(1) [rule_format, OF this] show
      "\<not> signal_aborted cancelled ext (Suc k0 + k)
      (listener (snd (read_loop decode parse onEvent (map Chunk (take k cs))
         (process_chunk decode parse onEvent c st))))"
      by simp
  qed
  have last: "signal_aborted cancelled ext (Suc k0 + length cs)
      (listener (snd (read_loop decode parse onEvent (map Chunk cs)
         (process_chunk decode parse onEvent c st))))"
    using Cons.prems(2) by simp
  show ?case
    using now Cons.IH [OF later last] by simp
qed

lemma heard_is_listener:
  "listener (snd (read_loop decode parse onEvent (map Chunk cs) (sse_init d0 l0))) =
     heard decode parse onEvent d0 l0 cs"
  using read_loop_chunks [of "sse_init d0 l0" decode parse onEvent cs]
  by (simp add: heard_def)

text \<open>
  Claim C3, as the code has it. Cancelling a stream stops the reading, without an
  exception and without an \<open>error\<close> event. When \<open>cancel\<close> is called while \<open>fetch\<close> is
  pending, nothing is delivered. Otherwise let \<open>cs\<close> be the chunks read before the
  signal is found aborted, whether the page cancelled while the next read was pending
  or the listener cancelled from inside \<open>onEvent\<close> during the last of them: the
  listener has been handed exactly the events of the complete lines of \<open>cs\<close>, the
  console holds only what those lines logged, nothing of what the network would still
  deliver (\<open>rest\<close>) is read, and \<open>fetchSSE\<close> returns normally. For a cancel from the
  page this means that no event at all follows it. For a cancel from inside
  \<open>onEvent\<close> the complete lines that the chunk in hand still holds are handed over
  first, since the loop over the lines does not look at the signal.
\<close>

theorem cancel_stops_reading:
  assumes "\<forall>k<length cs. \<not> signal_aborted cancelled ext k (heard decode parse onEvent d0 l0 (take k cs))"
    and "signal_aborted cancelled ext (length cs) (heard decode parse onEvent d0 l0 cs)"
    and "ext \<noteq> During_fetch"
  shows "streamChatMessage m cancelled ext decode parse onEvent
           (Response True code (Some (map Chunk cs @ rest))) d0 l0 =
         (Returned,
          \<lparr>dstate = decoder_after decode d0 cs,
           buffer = partial_line (decode_all decode d0 cs),
           listener = deliver onEvent
             (events_of_lines parse (complete_lines (decode_all decode d0 cs))) l0,
           console = map SSE_parse_failed
             (filter (malformed parse) (complete_lines (decode_all decode d0 cs)))\<rparr>)
     \<and> streamChatMessage m cancelled During_fetch decode parse onEvent net d0 l0 =
         (Returned, sse_init d0 l0)"
proof -
  have reads: "browser_reads m cancelled ext decode parse onEvent 0 (map Chunk cs @ rest) (sse_init d0 l0) =
      map Chunk cs @ [ReadRejected (AbortError m)]"
    using browser_reads_until_abort [of cs cancelled ext 0 decode parse onEvent "sse_init d0 l0" m rest]
      assms(1,2)
    by (simp add: heard_is_listener)
  obtain st1 where run: "read_loop decode parse onEvent (map Chunk cs) (sse_init d0 l0) = (Suspended, st1)"
    using read_loop_chunks [of "sse_init d0 l0" decode parse onEvent cs] by simp
  have st1: "st1 = snd (fetchSSE decode parse onEvent (Response True code (Some (map Chunk cs))) d0 l0)"
    using run by (simp add: fetchSSE_def)
  have "streamChatMessage m cancelled ext decode parse onEvent
           (Response True code (Some (map Chunk cs @ rest))) d0 l0 = (Returned, st1)"
    using assms(3) run
    by (simp add: streamChatMessage_def browser_fetch_def reads fetchSSE_def read_loop_append)
  moreover have "streamChatMessage m cancelled During_fetch decode parse onEvent net d0 l0 =
         (Returned, sse_init d0 l0)"
    by (simp add: streamChatMessage_def browser_fetch_def fetchSSE_def)
  ultimately show ?thesis
    by (simp add: st1 fetchSSE_chunks)
qed

lemmas cancel_eval =
  streamChatMessage_def browser_fetch_def signal_aborted_def never_cancels_def cancels_on_start_def
  heard_def fetchSSE_def sse_init_def process_chunk_def process_line_def call_onEvent_def
  pop_or_empty_def catch_outer_def AbortError_def event_def Let_def

theorem cancel_stops_reading_witness:
  \<open>streamChatMessage ''The user aborted a request.'' never_cancels (After_reads 1)
      decode_ascii parse_sample (Some record_event)
      (Response True 200 (Some (map Chunk
         [''data: {"type":"start"}'' @ [newline] @ ''data: {"type":"content","message":"Hi"}'' @ [newline]]
        @ [Chunk (''data: {"type":"end"}'' @ [newline]), Done]))) () [] =
    (Returned,
     \<lparr>dstate = (), buffer = [],
      listener = [event Start None, event Content (Some ''Hi'')], console = []\<rparr>)
   \<and> streamChatMessage ''The user aborted a request.'' never_cancels During_fetch
      decode_ascii parse_sample (Some record_event)
      (Response True 200 (Some [Chunk (''data: {"type":"end"}'' @ [newline]), Done])) () [] =
    (Returned, \<lparr>dstate = (), buffer = [], listener = [], console = []\<rparr>)\<close>
  using cancel_stops_reading [where m = "''The user aborted a request.''" and cancelled = never_cancels
      and ext = "After_reads 1" and decode = decode_ascii and parse = parse_sample
      and onEvent = "Some record_event" and code = 200 and ?d0.0 = "()" and ?l0.0 = "[]"
      and cs = \<open>[''data: {"type":"start"}'' @ [newline] @ ''data: {"type":"content","message":"Hi"}'' @ [newline]]\<close>
      and rest = \<open>[Chunk (''data: {"type":"end"}'' @ [newline]), Done]\<close>
      and net = \<open>Response True 200 (Some [Chunk (''data: {"type":"end"}'' @ [newline]), Done])\<close>]
  by (simp add: cancel_eval sse_eval)

text \<open>
  The claim as written has no event delivered after the cancellation, at whatever
  point \<open>cancel\<close> is called. A listener that calls \<open>cancel\<close> when it is handed the
  \<open>start\<close> event is still handed the \<open>content\<close> event of the same chunk; the \<open>end\<close>
  event of the next chunk is not read.
\<close>

theorem cancel_inside_callback:
  \<open>streamChatMessage ''The user aborted a request.'' cancels_on_start Never
      decode_ascii parse_sample (Some record_event)
      (Response True 200 (Some
         [Chunk (''data: {"type":"start"}'' @ [newline] @ ''data: {"type":"content","message":"Hi"}'' @ [newline]),
          Chunk (''data: {"type":"end"}'' @ [newline]), Done])) () [] =
    (Returned,
     \<lparr>dstate = (), buffer = [],
      listener = [event Start None, event Content (Some ''Hi'')], console = []\<rparr>)
   \<and> cancels_on_start [event Start None]\<close>
  by (simp add: cancel_eval sse_eval)

text \<open>
  Claim C4, as the code has it. A complete line that begins with \<open>data: \<close> and whose
  payload does not parse delivers no event, and every line before and after it is
  decoded and delivered as if it were not there; the loop goes on reading until the
  stream is done and returns normally. The failure is logged when the payload has a
  character that is not white space; a payload that is empty or all white space is
  passed over without a log entry, since the parser is not called on it.
\<close>

theorem malformed_line_skipped:
  assumes "complete_lines (decode_all decode d0 cs) = ls1 @ l # ls2"
    and "startsWith l ''data: ''"
    and "parse (drop 6 l) = None"
  shows "fetchSSE decode parse onEvent (Response True code (Some (map Chunk cs))) d0 l0 =
     (Suspended,
      \<lparr>dstate = decoder_after decode d0 cs,
       buffer = partial_line (decode_all decode d0 cs),
       listener = deliver onEvent (events_of_lines parse ls1 @ events_of_lines parse ls2) l0,
       console = map SSE_parse_failed (filter (malformed parse) ls1)
         @ (if truthy (trim (drop 6 l)) then [SSE_parse_failed l] else [])
         @ map SSE_parse_failed (filter (malformed parse) ls2)\<rparr>)
   \<and> fetchSSE decode parse onEvent (Response True code (Some (map Chunk cs @ [Done]))) d0 l0 =
     (Returned,
      snd (fetchSSE decode parse onEvent (Response True code (Some (map Chunk cs))) d0 l0))"
proof -
  have ev: "events_of_lines parse (ls1 @ l # ls2) = events_of_lines parse ls1 @ events_of_lines parse ls2"
    using events_of_lines_append [of parse ls1 "[l] @ ls2"] events_of_lines_append [of parse "[l]" ls2]
      malformed_single [of l parse] assms(2,3) by simp
  have bad: "map SSE_parse_failed (filter (malformed parse) (ls1 @ l # ls2)) =
      map SSE_parse_failed (filter (malformed parse) ls1)
         @ (if truthy (trim (drop 6 l)) then [SSE_parse_failed l] else [])
         @ map SSE_parse_failed (filter (malformed parse) ls2)"
    using assms(2,3) by (simp add: malformed_def)
  show ?thesis
    using fetchSSE_chunks [of decode parse onEvent code cs d0 l0]
      fetchSSE_chunks_Done [of decode parse onEvent code cs "[]" d0 l0]
    by (simp only: assms(1) ev bad)
qed

theorem malformed_line_skipped_witness:
  \<open>fetchSSE decode_ascii parse_sample (Some record_event)
     (Response True 200 (Some (map Chunk
        [''data: {"type":"start"}'' @ [newline] @ ''data: oops'' @ [newline]
           @ ''data: {"type":"end"}'' @ [newline]]))) () [] =
   (Suspended,
    \<lparr>dstate = (), buffer = [], listener = [event Start None, event End None],
     console = [SSE_parse_failed ''data: oops'']\<rparr>)\<close>
proof -
  have 1: \<open>complete_lines (decode_all decode_ascii ()
        [''data: {"type":"start"}'' @ [newline] @ ''data: oops'' @ [newline]
           @ ''data: {"type":"end"}'' @ [newline]]) =
      [''data: {"type":"start"}''] @ ''data: oops'' # [''data: {"type":"end"}'']\<close>
    by (simp add: sse_eval)
  have 2: "startsWith ''data: oops'' ''data: ''"
    by (simp add: startsWith_def)
  have 3: "parse_sample (drop 6 ''data: oops'') = None"
    by (simp add: parse_sample_def)
  show ?thesis
    using 1 2 3 malformed_line_skipped [where decode = decode_ascii and ?d0.0 = "()"
        and parse = parse_sample and l = "''data: oops''" and onEvent = "Some record_event"
        and code = 200 and ?l0.0 = "[]"
        and cs = \<open>[''data: {"type":"start"}'' @ [newline] @ ''data: oops'' @ [newline]
           @ ''data: {"type":"end"}'' @ [newline]]\<close>
        and ?ls1.0 = \<open>[''data: {"type":"start"}'']\<close>
        and ?ls2.0 = \<open>[''data: {"type":"end"}'']\<close>]
    by (simp add: sse_eval)
qed


text \<open>
  The claim as written says that the failure is logged for every such line. The line
  \<open>data:  \<close>, whose payload is one space and is not valid JSON, is skipped without a
  log entry.
\<close>

theorem blank_payload_not_logged:
  \<open>startsWith ''data:  '' ''data: '' \<and> parse_sample (drop 6 ''data:  '') = None
   \<and> fetchSSE decode_ascii parse_sample (Some record_event)
       (Response True 200 (Some (map Chunk [''data:  '' @ [newline]]))) () [] =
     (Suspended, \<lparr>dstate = (), buffer = [], listener = [], console = []\<rparr>)\<close>
  using fetchSSE_chunks [of decode_ascii parse_sample "Some record_event" 200
      \<open>[''data:  '' @ [newline]]\<close> "()" "[]"]
  by (simp add: sse_eval)



section \<open>Properties of sendChatMessage\<close>

lemma send_after_append:
  "send_after sid (xs @ ys) = foldl (\<lambda>s e. send_onEvent e s) (send_after sid xs) ys"
  by (simp add: send_after_def deliver_def)

lemma send_after_Nil [simp]: "send_after sid [] = send_init sid"
  by (simp add: send_after_def deliver_def)

lemma settled_sticky_step:
  "settled st \<noteq> Pending \<Longrightarrow> settled (send_onEvent e st) = settled st"
  by (cases "etype e")
     (auto simp: send_onEvent_def resolve_def reject_def Let_def split: option.splits)

lemma settled_sticky:
  "settled st \<noteq> Pending \<Longrightarrow> settled (foldl (\<lambda>s e. send_onEvent e s) st evs) = settled st"
  by (induction evs arbitrary: st) (simp_all add: settled_sticky_step)

lemma settled_unsettling_step:
  "\<not> settles e \<Longrightarrow> settled (send_onEvent e st) = settled st"
  by (cases "etype e")
     (auto simp: send_onEvent_def settles_def Let_def split: option.splits)

lemma settled_unsettling:
  "\<forall>e\<in>set evs. \<not> settles e \<Longrightarrow> settled (foldl (\<lambda>s e. send_onEvent e s) st evs) = settled st"
  by (induction evs arbitrary: st) (simp_all add: settled_unsettling_step)

lemma content_text_append: "content_text (xs @ ys) = content_text xs @ content_text ys"
  by (simp add: content_text_def)

lemma content_text_Nil [simp]: "content_text [] = []"
  by (simp add: content_text_def)

lemma finalResponse_step:
  "finalResponse (send_onEvent e st) =
     (if complete_with_message e then message_text e else finalResponse st @ content_text [e])"
  by (cases "etype e")
     (auto simp: send_onEvent_def complete_with_message_def content_text_def resolve_def reject_def
        Let_def split: option.splits)

lemma finalResponse_no_complete:
  "\<forall>e\<in>set evs. \<not> complete_with_message e \<Longrightarrow>
   finalResponse (foldl (\<lambda>s e. send_onEvent e s) st evs) = finalResponse st @ content_text evs"
proof (induction evs arbitrary: st)
  case Nil
  then show ?case by simp
next
  case (Cons e evs)
  have "content_text (e # evs) = content_text [e] @ content_text evs"
    using content_text_append [of "[e]" evs] by simp
  with Cons show ?case by (simp add: finalResponse_step)
qed

lemma finalSessionId_step:
  "finalSessionId (send_onEvent e st) =
     (if sets_session e then or_else (session_id e) [] else finalSessionId st)"
  by (cases "etype e")
     (auto simp: send_onEvent_def sets_session_def resolve_def reject_def Let_def split: option.splits)

lemma finalSessionId_keep:
  "\<forall>e\<in>set evs. \<not> sets_session e \<Longrightarrow>
   finalSessionId (foldl (\<lambda>s e. send_onEvent e s) st evs) = finalSessionId st"
  by (induction evs arbitrary: st) (simp_all add: finalSessionId_step)

lemma toolsUsed_step:
  "toolsUsed (send_onEvent e st) =
     (if sets_tools e then tools_list e else toolsUsed st)"
  by (cases "etype e")
     (auto simp: send_onEvent_def sets_tools_def tools_list_def resolve_def reject_def Let_def split: option.splits)

lemma toolsUsed_keep:
  "\<forall>e\<in>set evs. \<not> sets_tools e \<Longrightarrow>
   toolsUsed (foldl (\<lambda>s e. send_onEvent e s) st evs) = toolsUsed st"
  by (induction evs arbitrary: st) (simp_all add: toolsUsed_step)

lemma send_init_sel [simp]:
  "finalResponse (send_init sid) = []" "finalSessionId (send_init sid) = or_else sid []"
  "toolsUsed (send_init sid) = []" "settled (send_init sid) = Pending"
  by (simp_all add: send_init_def)

lemma settled_before:
  "\<forall>e\<in>set pre. \<not> settles e \<Longrightarrow> settled (send_after sid pre) = Pending"
  using settled_unsettling [of pre "send_init sid"] send_after_append [of sid "[]" pre]
  by simp

lemma settle_at:
  assumes "\<forall>x\<in>set pre. \<not> settles x" and "settles e"
  shows "settled (send_after sid (pre @ e # post)) = settled (send_onEvent e (send_after sid pre))"
proof -
  have "settled (send_onEvent e (send_after sid pre)) \<noteq> Pending"
    using assms(2) settled_before [OF assms(1), of sid]
    by (cases "etype e") (auto simp: settles_def send_onEvent_def resolve_def reject_def)
  then show ?thesis
    using send_after_append [of sid pre "e # post"] settled_sticky by simp
qed

lemma resolve_at_End:
  assumes "\<forall>x\<in>set pre. \<not> settles x" and "etype e = End"
  shows "settled (send_after sid (pre @ e # post)) =
     Resolved \<lparr>success = True, response = trim (finalResponse (send_after sid pre)),
               reply_session_id = finalSessionId (send_after sid pre),
               reply_tools_used = toolsUsed (send_after sid pre)\<rparr>"
  using settle_at [OF assms(1), of e sid post] assms(2) settled_before [OF assms(1), of sid]
  by (simp add: settles_def send_onEvent_def resolve_def)

lemma reject_at_Error:
  assumes "\<forall>x\<in>set pre. \<not> settles x" and "etype e = Error"
  shows "settled (send_after sid (pre @ e # post)) =
     Rejected (new_Error (or_else (message e) ''Chat failed''))"
  using settle_at [OF assms(1), of e sid post] assms(2) settled_before [OF assms(1), of sid]
  by (simp add: settles_def send_onEvent_def reject_def)

lemma finalResponse_after_complete:
  assumes "complete_with_message c" and "\<forall>x\<in>set b. \<not> complete_with_message x"
  shows "finalResponse (send_after sid (a @ c # b)) = message_text c @ content_text b"
  using send_after_append [of sid a "c # b"] assms(1)
    finalResponse_no_complete [OF assms(2), of "send_onEvent c (send_after sid a)"]
  by (simp add: finalResponse_step)

lemma finalResponse_chunks_only:
  assumes "\<forall>x\<in>set evs. \<not> complete_with_message x"
  shows "finalResponse (send_after sid evs) = content_text evs"
  using send_after_append [of sid "[]" evs] finalResponse_no_complete [OF assms, of "send_init sid"]
  by simp

lemma finalSessionId_after_complete:
  assumes "sets_session c" and "\<forall>x\<in>set b. \<not> sets_session x"
  shows "finalSessionId (send_after sid (a @ c # b)) = or_else (session_id c) []"
  using send_after_append [of sid a "c # b"] assms(1)
    finalSessionId_keep [OF assms(2), of "send_onEvent c (send_after sid a)"]
  by (simp add: finalSessionId_step)

lemma finalSessionId_initial:
  assumes "\<forall>x\<in>set evs. \<not> sets_session x"
  shows "finalSessionId (send_after sid evs) = or_else sid []"
  using send_after_append [of sid "[]" evs] finalSessionId_keep [OF assms, of "send_init sid"]
  by simp

lemma toolsUsed_after_complete:
  assumes "sets_tools c" and "\<forall>x\<in>set b. \<not> sets_tools x"
  shows "toolsUsed (send_after sid (a @ c # b)) = tools_list c"
  using send_after_append [of sid a "c # b"] assms(1)
    toolsUsed_keep [OF assms(2), of "send_onEvent c (send_after sid a)"]
  by (simp add: toolsUsed_step)

lemma toolsUsed_initial:
  assumes "\<forall>x\<in>set evs. \<not> sets_tools x"
  shows "toolsUsed (send_after sid evs) = []"
  using send_after_append [of sid "[]" evs] toolsUsed_keep [OF assms, of "send_init sid"]
  by simp


lemma sendChatMessage_stream:
  "sendChatMessage decode parse (Response True code (Some (map Chunk cs))) d0 sid =
     settled (send_after sid (events_of_lines parse (complete_lines (decode_all decode d0 cs))))"
  by (simp add: sendChatMessage_def send_after_def fetchSSE_chunks)


text \<open>
  Claim C7, as the code has it. For every sequence of events delivered to the callback
  of \<open>sendChatMessage\<close>, the promise settles at the first \<open>end\<close> or \<open>error\<close> event and
  stays as it settled: at an \<open>end\<close> it resolves with \<open>success\<close> true, the trimmed
  \<open>finalResponse\<close>, and the session identifier and tools gathered so far; at an \<open>error\<close>
  it rejects with the event's message, or with \<open>Chat failed\<close>; before either it is
  pending. \<open>finalResponse\<close> is the message of the last \<open>complete\<close> event that carried one,
  which replaces what was gathered before it, followed by the messages of the later
  \<open>content\<close> events, each with a space after it; with no such \<open>complete\<close> event it is
  the messages of the \<open>content\<close> events, each with a space after it. The session
  identifier and the tools are those of the last \<open>complete\<close> event that carried them,
  and otherwise the caller's session identifier (or the empty string) and no tools.
  The last part ties the event sequence to the stream: the events are those of the
  complete lines received.
\<close>

theorem sendChatMessage_settles_once:
  "((\<forall>x\<in>set pre. \<not> settles x) \<and> etype e = End \<longrightarrow>
      settled (send_after sid (pre @ e # post)) =
        Resolved \<lparr>success = True, response = trim (finalResponse (send_after sid pre)),
                  reply_session_id = finalSessionId (send_after sid pre),
                  reply_tools_used = toolsUsed (send_after sid pre)\<rparr>)
   \<and> ((\<forall>x\<in>set pre. \<not> settles x) \<and> etype e = Error \<longrightarrow>
      settled (send_after sid (pre @ e # post)) =
        Rejected (new_Error (or_else (message e) ''Chat failed'')))
   \<and> ((\<forall>x\<in>set pre. \<not> settles x) \<longrightarrow> settled (send_after sid pre) = Pending)
   \<and> (complete_with_message c \<and> (\<forall>x\<in>set b. \<not> complete_with_message x) \<longrightarrow>
      finalResponse (send_after sid (a @ c # b)) = message_text c @ content_text b)
   \<and> ((\<forall>x\<in>set pre. \<not> complete_with_message x) \<longrightarrow>
      finalResponse (send_after sid pre) = content_text pre)
   \<and> (sets_session c \<and> (\<forall>x\<in>set b. \<not> sets_session x) \<longrightarrow>
      finalSessionId (send_after sid (a @ c # b)) = or_else (session_id c) [])
   \<and> ((\<forall>x\<in>set pre. \<not> sets_session x) \<longrightarrow>
      finalSessionId (send_after sid pre) = or_else sid [])
   \<and> (sets_tools c \<and> (\<forall>x\<in>set b. \<not> sets_tools x) \<longrightarrow>
      toolsUsed (send_after sid (a @ c # b)) = tools_list c)
   \<and> ((\<forall>x\<in>set pre. \<not> sets_tools x) \<longrightarrow> toolsUsed (send_after sid pre) = [])
   \<and> sendChatMessage decode parse (Response True code (Some (map Chunk cs))) d0 sid =
       settled (send_after sid (events_of_lines parse (complete_lines (decode_all decode d0 cs))))"
  using resolve_at_End [of pre e sid post] reject_at_Error [of pre e sid post]
    settled_before [of pre sid]
    finalResponse_after_complete [of c b sid a] finalResponse_chunks_only [of pre sid]
    finalSessionId_after_complete [of c b sid a] finalSessionId_initial [of pre sid]
    toolsUsed_after_complete [of c b sid a] toolsUsed_initial [of pre sid]
    sendChatMessage_stream [of decode parse code cs d0 sid]
  by blast

lemmas send_eval =
  send_after_def deliver_def send_onEvent_def send_init_def resolve_def reject_def
  event_def settles_def complete_with_message_def sets_session_def sets_tools_def tools_list_def
  content_text_def message_text_def truthy_opt_def truthy_def or_else_def or_str_def
  trim_def is_space_def new_Error_def Let_def

theorem sendChatMessage_settles_once_witness:
  "settled (send_after None
      [event Content (Some ''Hello''), event Content (Some ''world''),
       (event Complete (Some ''Final answer ''))\<lparr>session_id := Some ''s1'', tools_used := Some [''search'']\<rparr>,
       event End None, event Error (Some ''late'')]) =
     Resolved \<lparr>success = True, response = ''Final answer'', reply_session_id = ''s1'',
               reply_tools_used = [''search'']\<rparr>
   \<and> settled (send_after None [event Content (Some ''Hello''), event Content (Some ''world''), event End None]) =
     Resolved \<lparr>success = True, response = ''Hello world'', reply_session_id = [],
               reply_tools_used = []\<rparr>
   \<and> settled (send_after None [event Content (Some ''Hello''), event Error None, event End None]) =
     Rejected (new_Error ''Chat failed'')"
  using sendChatMessage_settles_once [where sid = None
      and pre = "[event Content (Some ''Hello''), event Content (Some ''world''),
        (event Complete (Some ''Final answer ''))\<lparr>session_id := Some ''s1'', tools_used := Some [''search'']\<rparr>]"
      and e = "event End None" and post = "[event Error (Some ''late'')]"
      and a = "[event Content (Some ''Hello''), event Content (Some ''world'')]"
      and c = "(event Complete (Some ''Final answer ''))\<lparr>session_id := Some ''s1'', tools_used := Some [''search'']\<rparr>"
      and b = "[]"]
    sendChatMessage_settles_once [where sid = None
      and pre = "[event Content (Some ''Hello''), event Content (Some ''world'')]"
      and e = "event End None" and post = "[]"]
    sendChatMessage_settles_once [where sid = None
      and pre = "[event Content (Some ''Hello'')]"
      and e = "event Error None" and post = "[event End None]"]
  by (simp add: send_eval)


text \<open>
  The claim as written makes the response equal to the message of the \<open>complete\<close>
  event, and has the promise resolve at the first \<open>end\<close> event. A message that ends in a
  line feed is not the response, which is trimmed; and after an \<open>error\<close> event the
  promise is rejected and the \<open>end\<close> event that follows does not resolve it.
\<close>

theorem complete_message_is_trimmed:
  "settled (send_after None [event Complete (Some (''Hi'' @ [newline])), event End None]) \<noteq>
     Resolved \<lparr>success = True, response = ''Hi'' @ [newline], reply_session_id = [],
               reply_tools_used = []\<rparr>
   \<and> settled (send_after None [event Error (Some ''boom''), event End None]) =
     Rejected (new_Error ''boom'')"
  by (simp add: send_eval newline_def)



section \<open>Properties of the Reports page\<close>

lemma trim_blank: "\<forall>c\<in>set s. is_space c \<Longrightarrow> trim s = []"
  by (auto simp: trim_def dest: set_dropWhileD)

lemma clear_current_inv: "interval_inv s \<Longrightarrow> intervals (clear_current s) = []"
  by (auto simp: interval_inv_def clear_current_def window_clearInterval_def
      split: list.splits option.splits)

lemma clear_current_fields [simp]:
  "pollingIntervalRef (clear_current s) = pollingIntervalRef s"
  "last_interval_id (clear_current s) = last_interval_id s"
  "clock (clear_current s) = clock s"
  "requests (clear_current s) = requests s"
  "isGenerating (clear_current s) = isGenerating s"
  "error (clear_current s) = error s"
  "generatedReports (clear_current s) = generatedReports s"
  "pollingStatus (clear_current s) = pollingStatus s"
  "topic (clear_current s) = topic s"
  "page_console (clear_current s) = page_console s"
  by (simp_all add: clear_current_def window_clearInterval_def split: option.splits)

lemma pollStatus_polling:
  "interval_inv s \<Longrightarrow>
   polling \<lparr>interval_id = Suc (last_interval_id s), delay = 10000, taskId = tid,
            closed_topic = fst closed, closed_reportType = snd closed\<rparr> (pollStatus closed tid s)"
  by (simp add: pollStatus_def polling_def Let_def clear_current_inv)

lemma pollStatus_fields [simp]:
  "clock (pollStatus closed tid s) = clock s"
  "requests (pollStatus closed tid s) = requests s"
  "isGenerating (pollStatus closed tid s) = isGenerating s"
  "error (pollStatus closed tid s) = error s"
  "generatedReports (pollStatus closed tid s) = generatedReports s"
  "pollingStatus (pollStatus closed tid s) = pollingStatus s"
  "topic (pollStatus closed tid s) = topic s"
  by (simp_all add: pollStatus_def Let_def)

lemma poll_times_upt: "poll_times t0 d n = map (\<lambda>k. t0 + d * k) [1..<Suc n]"
proof (induction n arbitrary: t0)
  case 0
  then show ?case by simp
next
  case (Suc n)
  have "[1..<Suc (Suc n)] = 1 # map Suc [1..<Suc n]"
    by (simp add: map_Suc_upt upt_conv_Cons del: upt_Suc)
  then show ?case
    by (simp add: Suc.IH add.assoc del: upt_Suc)
qed

lemma interval_inv_empty: "intervals s = [] \<Longrightarrow> interval_inv s"
  by (simp add: interval_inv_def)

lemma polling_inv: "polling t s \<Longrightarrow> interval_inv s"
  by (simp add: interval_inv_def polling_def)

lemma interval_inv_alt:
  "interval_inv s =
     (intervals s = [] \<or>
      (\<exists>t. intervals s = [t] \<and> pollingIntervalRef s = Some (interval_id t) \<and> interval_id t \<noteq> 0))"
  by (auto simp: interval_inv_def split: list.splits)

lemma poll_settle_inv: "interval_inv s \<Longrightarrow> interval_inv (poll_settle t out s)"
proof -
  assume inv: "interval_inv s"
  have c: "intervals (clear_current s) = []"
    by (rule clear_current_inv [OF inv])
  show ?thesis
  proof (cases out)
    case PollThrew
    with inv show ?thesis
      by (simp add: poll_settle_def interval_inv_alt)
  next
    case (PollResponse r)
    show ?thesis
    proof (cases r)
      case None
      with inv PollResponse show ?thesis by (simp add: poll_settle_def)
    next
      case (Some task)
      with inv c PollResponse show ?thesis
        by (auto simp: poll_settle_def Let_def interval_inv_alt split: option.splits)
    qed
  qed
qed

lemma page_step_inv: "interval_inv s \<Longrightarrow> interval_inv (page_step ev s)"
proof (cases ev)
  case (Generate_resume closed out)
  assume inv: "interval_inv s"
  show ?thesis
  proof (cases out)
    case (SubmitThrew d)
    with inv Generate_resume show ?thesis
      by (simp add: handleGenerate_resume_def interval_inv_alt)
  next
    case (SubmitResponse ok tid)
    have "interval_inv (pollStatus closed (or_else tid []) s)"
      by (rule polling_inv [OF pollStatus_polling [OF inv]])
    with inv Generate_resume SubmitResponse show ?thesis
      by (simp add: handleGenerate_resume_def) (simp add: interval_inv_alt)
  qed
next
  case (Interval_settle t out)
  assume "interval_inv s"
  with Interval_settle show ?thesis by (simp add: poll_settle_inv)
next
  case Unmount
  assume "interval_inv s"
  with Unmount show ?thesis
    by (simp add: unmount_cleanup_def interval_inv_empty clear_current_inv)
next
  case Interval_fires
  assume "interval_inv s"
  with Interval_fires show ?thesis
    by (auto simp: poll_request_def interval_inv_alt split: list.splits)
qed (simp_all add: handleGenerate_begin_def poll_request_def interval_inv_alt)

lemma run_events_inv: "interval_inv s \<Longrightarrow> interval_inv (run_events evs s)"
  unfolding run_events_def
  by (induction evs arbitrary: s) (simp_all add: page_step_inv)

lemma initial_page_inv: "interval_inv initial_page"
  by (simp add: interval_inv_def initial_page_def)

lemma at_most_one_interval:
  "length (intervals (run_events evs initial_page)) \<le> 1
   \<and> (\<forall>t\<in>set (intervals (run_events evs initial_page)).
         pollingIntervalRef (run_events evs initial_page) = Some (interval_id t))"
  using run_events_inv [OF initial_page_inv, of evs]
  by (auto simp: interval_inv_def split: list.splits)

lemma unmount_clears_current:
  "intervals (run_events (evs @ [Unmount]) initial_page) = []"
  using run_events_inv [OF initial_page_inv, of evs]
  by (simp add: run_events_def unmount_cleanup_def clear_current_inv)

lemma poll_requests_upt:
  "map (\<lambda>k. (k, g)) (poll_times t0 d n) = map (\<lambda>k. (t0 + d * k, g)) [1..<Suc n]"
  by (simp add: poll_times_upt comp_def del: upt_Suc)

lemma run_events_Nil [simp]: "run_events [] s = s"
  by (simp add: run_events_def)

lemma run_events_Cons [simp]: "run_events (ev # evs) s = run_events evs (page_step ev s)"
  by (simp add: run_events_def)

lemma run_events_append: "run_events (xs @ ys) s = run_events ys (run_events xs s)"
  by (simp add: run_events_def)

lemma firings_Cons: "firings (ev # evs) = (if is_firing ev then Suc (firings evs) else firings evs)"
  by (simp add: firings_def)

lemma quiet_step:
  assumes "polling t s" and "quiet ev"
  shows "polling t (page_step ev s)"
    and "isGenerating (page_step ev s) = isGenerating s"
    and "error (page_step ev s) = error s"
    and "generatedReports (page_step ev s) = generatedReports s"
    and "clock (page_step ev s) = clock s + (if is_firing ev then delay t else 0)"
    and "requests (page_step ev s) =
           requests s @ (if is_firing ev then [(clock s + delay t, GET_report_task (taskId t))] else [])"
  using assms
  by (cases ev;
      auto simp: quiet_def is_firing_def poll_settle_def poll_request_def polling_def terminal_def
        split: poll_outcome.splits option.splits)+

lemma quiet_run:
  assumes "polling t s" and "\<forall>ev\<in>set evs. quiet ev"
  shows "polling t (run_events evs s)
     \<and> isGenerating (run_events evs s) = isGenerating s
     \<and> error (run_events evs s) = error s
     \<and> generatedReports (run_events evs s) = generatedReports s
     \<and> clock (run_events evs s) = clock s + delay t * firings evs
     \<and> requests (run_events evs s) =
         requests s @ map (\<lambda>k. (k, GET_report_task (taskId t)))
           (poll_times (clock s) (delay t) (firings evs))"
  using assms
proof (induction evs arbitrary: s)
  case Nil
  then show ?case by (simp add: firings_def)
next
  case (Cons ev evs)
  have q: "quiet ev" and rest: "\<forall>ev\<in>set evs. quiet ev"
    using Cons.prems(2) by simp_all
  note step = quiet_step [OF Cons.prems(1) q]
  show ?case
    using Cons.IH [OF step(1) rest] step(2-6)
    by (simp add: firings_Cons add.assoc)
qed

lemma settle_progress:
  assumes "status task \<noteq> ''completed''" and "status task \<noteq> ''failed''"
  shows "pollingStatus (poll_settle t (PollResponse (Some task)) s) =
           or_else (task_message task) ''Processing...''"
  using assms by (simp add: poll_settle_def)

lemma settle_completed:
  assumes "polling t s" and "status task = ''completed''"
  shows "intervals (poll_settle c (PollResponse (Some task)) s) = []"
    and "\<not> isGenerating (poll_settle c (PollResponse (Some task)) s)"
    and "pollingStatus (poll_settle c (PollResponse (Some task)) s) = []"
    and "error (poll_settle c (PollResponse (Some task)) s) = error s"
    and "generatedReports (poll_settle c (PollResponse (Some task)) s) =
          (case result task of
             None \<Rightarrow> generatedReports s
           | Some r \<Rightarrow>
               if truthy (report_filename r) then
                 \<lparr>filename = report_filename r,
                  report_topic = or_str (result_topic r) (closed_topic c),
                  rtype = or_str (report_type r) (closed_reportType c),
                  generatedAt = clock s\<rparr> # generatedReports s
               else generatedReports s)"
    and "requests (poll_settle c (PollResponse (Some task)) s) = requests s"
  using assms
  by (auto simp: poll_settle_def polling_def Let_def
      clear_current_def window_clearInterval_def split: option.splits)

lemma settle_failed:
  assumes "polling t s" and "status task = ''failed''"
  shows "intervals (poll_settle c (PollResponse (Some task)) s) = []"
    and "\<not> isGenerating (poll_settle c (PollResponse (Some task)) s)"
    and "pollingStatus (poll_settle c (PollResponse (Some task)) s) = []"
    and "error (poll_settle c (PollResponse (Some task)) s) =
          Some (or_else (task_error task) ''Report generation failed'')"
    and "generatedReports (poll_settle c (PollResponse (Some task)) s) = generatedReports s"
    and "requests (poll_settle c (PollResponse (Some task)) s) = requests s"
  using assms
  by (auto simp: poll_settle_def polling_def Let_def
      clear_current_def window_clearInterval_def split: option.splits)

lemma firing_without_interval:
  "intervals s = [] \<Longrightarrow> \<forall>ev\<in>set post. is_firing ev \<Longrightarrow> run_events post s = s"
proof (induction post)
  case Nil
  then show ?case by simp
next
  case (Cons ev post)
  then have "page_step ev s = s"
    by (cases ev) (simp_all add: is_firing_def)
  with Cons show ?case by simp
qed

text \<open>
  Claim C2, as the code has it. After \<open>pollStatus\<close> has registered its interval for a
  task (on a page whose registered interval, if any, is the one the ref holds), the
  interval has a delay of 10000 milliseconds and its callback asks for the status of
  the task at every firing, 10000 milliseconds apart. The callback is asynchronous, so
  the answers arrive in any interleaving with the later firings. While no answer is
  terminal (a request that throws and a response without data are not), the interval
  stays registered, a request goes out at every firing, and the loading state, the
  error and the list of reports are untouched; an answer with any status other than
  \<open>completed\<close> and \<open>failed\<close> shows its message, or \<open>Processing...\<close>. When an answer to
  the callback of this interval reports \<open>completed\<close>, the interval is cleared, the
  loading state ends, and the report of the result is put in front of the list if the
  result names a file, and nothing is shown if it does not. When it reports \<open>failed\<close>,
  the interval is cleared, the loading state ends and the error is shown. The firings
  that would have followed issue no request. What an answer does that arrives after
  the interval of its callback was cleared is not part of this statement.
\<close>

theorem polling_until_terminal:
  assumes "interval_inv s" and "\<forall>ev\<in>set evs. quiet ev" and "\<forall>ev\<in>set post. is_firing ev"
  shows "intervals (pollStatus closed tid s) =
           [\<lparr>interval_id = Suc (last_interval_id s), delay = 10000, taskId = tid,
             closed_topic = fst closed, closed_reportType = snd closed\<rparr>]
     \<and> \<not> terminal PollThrew \<and> \<not> terminal (PollResponse None)
     \<and> intervals (run_events evs (pollStatus closed tid s)) = intervals (pollStatus closed tid s)
     \<and> isGenerating (run_events evs (pollStatus closed tid s)) = isGenerating s
     \<and> error (run_events evs (pollStatus closed tid s)) = error s
     \<and> generatedReports (run_events evs (pollStatus closed tid s)) = generatedReports s
     \<and> requests (run_events evs (pollStatus closed tid s)) =
         requests s @ map (\<lambda>k. (clock s + 10000 * k, GET_report_task tid)) [1..<Suc (firings evs)]
     \<and> (status task \<noteq> ''completed'' \<and> status task \<noteq> ''failed'' \<longrightarrow>
          pollingStatus (run_events (evs @ [Interval_settle c (PollResponse (Some task))])
                           (pollStatus closed tid s)) =
            or_else (task_message task) ''Processing...'')
     \<and> (status task = ''completed'' \<longrightarrow>
          (let t = \<lparr>interval_id = Suc (last_interval_id s), delay = 10000, taskId = tid,
                     closed_topic = fst closed, closed_reportType = snd closed\<rparr>;
               s2 = run_events (evs @ Interval_settle t (PollResponse (Some task)) # post)
                      (pollStatus closed tid s)
           in intervals s2 = [] \<and> \<not> isGenerating s2 \<and> pollingStatus s2 = [] \<and> error s2 = error s
              \<and> generatedReports s2 =
                  (case result task of
                     None \<Rightarrow> generatedReports s
                   | Some r \<Rightarrow>
                       if truthy (report_filename r) then
                         \<lparr>filename = report_filename r,
                          report_topic = or_str (result_topic r) (fst closed),
                          rtype = or_str (report_type r) (snd closed),
                          generatedAt = clock s + 10000 * firings evs\<rparr> # generatedReports s
                       else generatedReports s)
              \<and> requests s2 =
                  requests s @ map (\<lambda>k. (clock s + 10000 * k, GET_report_task tid))
                    [1..<Suc (firings evs)]))
     \<and> (status task = ''failed'' \<longrightarrow>
          (let t = \<lparr>interval_id = Suc (last_interval_id s), delay = 10000, taskId = tid,
                     closed_topic = fst closed, closed_reportType = snd closed\<rparr>;
               s2 = run_events (evs @ Interval_settle t (PollResponse (Some task)) # post)
                      (pollStatus closed tid s)
           in intervals s2 = [] \<and> \<not> isGenerating s2 \<and> pollingStatus s2 = []
              \<and> error s2 = Some (or_else (task_error task) ''Report generation failed'')
              \<and> generatedReports s2 = generatedReports s
              \<and> requests s2 =
                  requests s @ map (\<lambda>k. (clock s + 10000 * k, GET_report_task tid))
                    [1..<Suc (firings evs)]))"
proof -
  let ?t = "\<lparr>interval_id = Suc (last_interval_id s), delay = 10000, taskId = tid,
             closed_topic = fst closed, closed_reportType = snd closed\<rparr>"
  let ?s1 = "pollStatus closed tid s"
  let ?sp = "run_events evs ?s1"
  let ?ans = "Interval_settle ?t (PollResponse (Some task))"
  have p1: "polling ?t ?s1"
    by (rule pollStatus_polling [OF assms(1)])
  note run = quiet_run [OF p1 assms(2)]
  have psp: "polling ?t ?sp" using run by simp
  have reqs: "requests ?sp =
      requests s @ map (\<lambda>k. (clock s + 10000 * k, GET_report_task tid)) [1..<Suc (firings evs)]"
    using run by (simp add: poll_requests_upt del: upt_Suc)
  have clk: "clock ?sp = clock s + 10000 * firings evs"
    using run by simp
  have A: "intervals ?s1 = [?t]" using p1 by (simp add: polling_def)
  have B: "\<not> terminal PollThrew \<and> \<not> terminal (PollResponse None)"
    by (simp add: terminal_def)
  have C: "intervals ?sp = intervals ?s1 \<and> isGenerating ?sp = isGenerating s \<and> error ?sp = error s
      \<and> generatedReports ?sp = generatedReports s"
    using run A by (simp add: polling_def)
  have D: "status task \<noteq> ''completed'' \<and> status task \<noteq> ''failed'' \<longrightarrow>
      pollingStatus (run_events (evs @ [Interval_settle c (PollResponse (Some task))]) ?s1) =
        or_else (task_message task) ''Processing...''"
    by (simp add: run_events_append settle_progress)
  have stop: "intervals (poll_settle ?t (PollResponse (Some task)) ?sp) = [] \<Longrightarrow>
      run_events (evs @ ?ans # post) ?s1 = poll_settle ?t (PollResponse (Some task)) ?sp"
    using firing_without_interval [OF _ assms(3)] by (simp add: run_events_append)
  have E: "status task = ''completed'' \<longrightarrow>
          (let t = ?t; s2 = run_events (evs @ Interval_settle t (PollResponse (Some task)) # post) ?s1
           in intervals s2 = [] \<and> \<not> isGenerating s2 \<and> pollingStatus s2 = [] \<and> error s2 = error s
              \<and> generatedReports s2 =
                  (case result task of
                     None \<Rightarrow> generatedReports s
                   | Some r \<Rightarrow>
                       if truthy (report_filename r) then
                         \<lparr>filename = report_filename r,
                          report_topic = or_str (result_topic r) (fst closed),
                          rtype = or_str (report_type r) (snd closed),
                          generatedAt = clock s + 10000 * firings evs\<rparr> # generatedReports s
                       else generatedReports s)
              \<and> requests s2 =
                  requests s @ map (\<lambda>k. (clock s + 10000 * k, GET_report_task tid))
                    [1..<Suc (firings evs)])"
  proof
    assume st: "status task = ''completed''"
    note f = settle_completed [OF psp st, of ?t]
    show "let t = ?t; s2 = run_events (evs @ Interval_settle t (PollResponse (Some task)) # post) ?s1
           in intervals s2 = [] \<and> \<not> isGenerating s2 \<and> pollingStatus s2 = [] \<and> error s2 = error s
              \<and> generatedReports s2 =
                  (case result task of
                     None \<Rightarrow> generatedReports s
                   | Some r \<Rightarrow>
                       if truthy (report_filename r) then
                         \<lparr>filename = report_filename r,
                          report_topic = or_str (result_topic r) (fst closed),
                          rtype = or_str (report_type r) (snd closed),
                          generatedAt = clock s + 10000 * firings evs\<rparr> # generatedReports s
                       else generatedReports s)
              \<and> requests s2 =
                  requests s @ map (\<lambda>k. (clock s + 10000 * k, GET_report_task tid))
                    [1..<Suc (firings evs)]"
      unfolding Let_def stop [OF f(1)]
      using f C reqs clk by (simp split: option.splits del: upt_Suc)
  qed
  have F: "status task = ''failed'' \<longrightarrow>
          (let t = ?t; s2 = run_events (evs @ Interval_settle t (PollResponse (Some task)) # post) ?s1
           in intervals s2 = [] \<and> \<not> isGenerating s2 \<and> pollingStatus s2 = []
              \<and> error s2 = Some (or_else (task_error task) ''Report generation failed'')
              \<and> generatedReports s2 = generatedReports s
              \<and> requests s2 =
                  requests s @ map (\<lambda>k. (clock s + 10000 * k, GET_report_task tid))
                    [1..<Suc (firings evs)])"
  proof
    assume st: "status task = ''failed''"
    note f = settle_failed [OF psp st, of ?t]
    show "let t = ?t; s2 = run_events (evs @ Interval_settle t (PollResponse (Some task)) # post) ?s1
           in intervals s2 = [] \<and> \<not> isGenerating s2 \<and> pollingStatus s2 = []
              \<and> error s2 = Some (or_else (task_error task) ''Report generation failed'')
              \<and> generatedReports s2 = generatedReports s
              \<and> requests s2 =
                  requests s @ map (\<lambda>k. (clock s + 10000 * k, GET_report_task tid))
                    [1..<Suc (firings evs)]"
      unfolding Let_def stop [OF f(1)]
      using f C reqs clk by (simp del: upt_Suc)
  qed
  show ?thesis
    using A B C reqs D E F by (simp only: simp_thms)
qed

lemmas page_eval =
  initial_page_def pollStatus_def clear_current_def window_clearInterval_def poll_settle_def
  poll_request_def handleGenerate_def handleGenerate_begin_def
  handleGenerate_resume_def unmount_cleanup_def interval_inv_def terminal_def
  not_found_def quiet_def finds_no_task_def is_firing_def firings_def interval_1_def
  truthy_def truthy_opt_def or_else_def or_str_def trim_def is_space_def Let_def

theorem polling_until_terminal_witness:
  "interval_inv initial_page
   \<and> status task_completed = ''completed''
   \<and> (let t = interval_1 ''t-123'' ''Fintech market analysis'' ''market_research'';
           s2 = run_events
                  ([Interval_fires, Interval_fires, Interval_settle t PollThrew,
                    Interval_settle t (PollResponse (Some task_processing)), Interval_fires]
                   @ Interval_settle t (PollResponse (Some task_completed))
                   # [Interval_fires, Interval_fires])
                  (pollStatus (''Fintech market analysis'', ''market_research'') ''t-123'' initial_page)
       in intervals s2 = [] \<and> \<not> isGenerating s2 \<and> pollingStatus s2 = [] \<and> error s2 = None
          \<and> generatedReports s2 =
               [\<lparr>filename = ''fintech-analysis.pdf'', report_topic = ''Fintech market analysis'',
                 rtype = ''market_research'', generatedAt = 30000\<rparr>]
          \<and> requests s2 =
               [(10000, GET_report_task ''t-123''), (20000, GET_report_task ''t-123''),
                (30000, GET_report_task ''t-123'')])"
  using polling_until_terminal [where s = initial_page and task = task_completed
        and closed = "(''Fintech market analysis'', ''market_research'')" and tid = "''t-123''"
        and evs = "[Interval_fires, Interval_fires,
                    Interval_settle (interval_1 ''t-123'' ''Fintech market analysis'' ''market_research'') PollThrew,
                    Interval_settle (interval_1 ''t-123'' ''Fintech market analysis'' ''market_research'')
                      (PollResponse (Some task_processing)), Interval_fires]"
        and post = "[Interval_fires, Interval_fires]"]
  by (simp add: page_eval task_completed_def task_processing_def)

text \<open>
  The claim as written has every \<open>completed\<close> poll surface the result. A \<open>completed\<close>
  answer whose result names no file, and one that carries no result, end the polling
  and the loading state and show nothing, neither a report nor an error.
\<close>

theorem completed_without_report:
  "(let t = interval_1 ''t-123'' ''Fintech market analysis'' ''market_research'';
        s1 = pollStatus (''Fintech market analysis'', ''market_research'') ''t-123''
               (initial_page\<lparr>isGenerating := True\<rparr>);
        s2 = run_events [Interval_fires, Interval_settle t (PollResponse (Some task_completed_unnamed))] s1;
        s3 = run_events [Interval_fires, Interval_settle t (PollResponse (Some task_completed_bare))] s1
    in result task_completed_unnamed \<noteq> None
       \<and> intervals s2 = [] \<and> \<not> isGenerating s2 \<and> generatedReports s2 = [] \<and> error s2 = None
       \<and> intervals s3 = [] \<and> \<not> isGenerating s3 \<and> generatedReports s3 = [] \<and> error s3 = None)"
  by (simp add: page_eval task_completed_unnamed_def task_completed_bare_def)

text \<open>
  An answer that arrives late is handled against the interval the ref holds by then.
  The task \<open>t-1\<close> completes while a second request for it is still in flight; a second
  report is submitted and \<open>t-2\<close> gets its interval; the late answer for \<open>t-1\<close> then
  clears the interval of \<open>t-2\<close> and ends its loading state before any request for
  \<open>t-2\<close> was issued, and lists the report of \<open>t-1\<close> a second time.
\<close>

lemma stale_answer_stops_next_task:
  "(let t1 = interval_1 ''t-1'' ''A'' ''comprehensive'';
        s = run_events
              [SetTopic ''A'', Generate_begin,
               Generate_resume (''A'', ''comprehensive'') (SubmitResponse True (Some ''t-1'')),
               Interval_fires, Interval_fires,
               Interval_settle t1 (PollResponse (Some task_completed)),
               SetTopic ''B'', Generate_begin,
               Generate_resume (''B'', ''comprehensive'') (SubmitResponse True (Some ''t-2'')),
               Interval_settle t1 (PollResponse (Some task_completed)),
               Interval_fires, Interval_fires]
              initial_page
    in intervals s = [] \<and> \<not> isGenerating s
       \<and> filter (\<lambda>r. snd r = GET_report_task ''t-2'') (requests s) = []
       \<and> map filename (generatedReports s) = [''fintech-analysis.pdf'', ''fintech-analysis.pdf''])"
  by (simp add: page_eval task_completed_def)

lemma not_found_nonterminal: "not_found out \<Longrightarrow> \<not> terminal out"
  by (auto simp: not_found_def terminal_def split: poll_outcome.splits option.splits)

lemma handleGenerate_started:
  assumes "truthy (trim (topic s))" and "truthy tid"
  shows "handleGenerate (SubmitResponse True (Some tid)) s =
     pollStatus (topic s, reportType s) tid
       (s\<lparr>isGenerating := True, error := None,
          pollingStatus := ''Initializing report generation...'',
          requests := requests s @
            [(clock s, POST_generate_background
                \<lparr>req_topic = trim (topic s), req_report_type = reportType s,
                 req_format = format s, use_langgraph = True\<rparr>)]\<rparr>)"
  using assms
  by (simp add: handleGenerate_def handleGenerate_begin_def handleGenerate_resume_def
      truthy_opt_def or_else_def or_str_def)

lemma finds_no_task_quiet: "finds_no_task ev \<Longrightarrow> quiet ev"
  by (cases ev) (simp_all add: finds_no_task_def quiet_def not_found_nonterminal)

text \<open>
  Claim C5, as the code has it. After a submission that returned a task identifier,
  answers that find no task leave the page as it was, in whatever interleaving with
  the firings they arrive: the interval stays registered, the loading state stays on,
  no error is set (which is how the page differs from the \<open>failed\<close> case), and a
  further request is issued every 10000 milliseconds, for as long as such answers go
  on.
\<close>

theorem not_found_keeps_polling:
  assumes "interval_inv s" and "truthy (trim (topic s))" and "truthy tid"
    and "\<forall>ev\<in>set evs. finds_no_task ev"
  shows "(let s1 = handleGenerate (SubmitResponse True (Some tid)) s;
              s2 = run_events evs s1
          in intervals s1 =
               [\<lparr>interval_id = Suc (last_interval_id s), delay = 10000, taskId = tid,
                 closed_topic = topic s, closed_reportType = reportType s\<rparr>]
             \<and> intervals s2 = intervals s1
             \<and> isGenerating s2
             \<and> error s2 = None
             \<and> generatedReports s2 = generatedReports s
             \<and> requests s2 =
                 requests s1 @ map (\<lambda>k. (clock s + 10000 * k, GET_report_task tid)) [1..<Suc (firings evs)])"
proof -
  let ?s0 = "s\<lparr>isGenerating := True, error := None,
          pollingStatus := ''Initializing report generation...'',
          requests := requests s @
            [(clock s, POST_generate_background
                \<lparr>req_topic = trim (topic s), req_report_type = reportType s,
                 req_format = format s, use_langgraph = True\<rparr>)]\<rparr>"
  let ?t = "\<lparr>interval_id = Suc (last_interval_id s), delay = 10000, taskId = tid,
                 closed_topic = topic s, closed_reportType = reportType s\<rparr>"
  have inv0: "interval_inv ?s0"
    using assms(1) by (simp add: interval_inv_alt)
  have p: "polling ?t (pollStatus (topic s, reportType s) tid ?s0)"
    using pollStatus_polling [OF inv0, of tid "(topic s, reportType s)"] by simp
  have nt: "\<forall>ev\<in>set evs. quiet ev"
    using assms(4) finds_no_task_quiet by blast
  note run = quiet_run [OF p nt]
  show ?thesis
    unfolding Let_def handleGenerate_started [OF assms(2,3)]
    using run p by (simp add: polling_def poll_requests_upt del: upt_Suc)
qed

theorem not_found_keeps_polling_witness:
  "(let t = interval_1 ''t-expired'' ''AI'' ''comprehensive'';
        s1 = handleGenerate (SubmitResponse True (Some ''t-expired'')) (initial_page\<lparr>topic := ''AI''\<rparr>);
        s2 = run_events [Interval_fires, Interval_fires, Interval_settle t PollThrew,
                         Interval_settle t (PollResponse None)] s1
    in intervals s2 = intervals s1 \<and> isGenerating s2 \<and> error s2 = None
       \<and> requests s2 =
           requests s1 @ [(10000, GET_report_task ''t-expired''), (20000, GET_report_task ''t-expired'')])"
  using not_found_keeps_polling [where s = "initial_page\<lparr>topic := ''AI''\<rparr>" and tid = "''t-expired''"
      and evs = "[Interval_fires, Interval_fires,
                  Interval_settle (interval_1 ''t-expired'' ''AI'' ''comprehensive'') PollThrew,
                  Interval_settle (interval_1 ''t-expired'' ''AI'' ''comprehensive'') (PollResponse None)]"]
  by (simp add: page_eval)

text \<open>
  The claim as written has the page reach a terminal state on a lookup that finds no
  task. After three such polls of an expired task the page is still loading, shows no
  error and still polls.
\<close>

theorem not_found_still_loading:
  "(let t = interval_1 ''t-expired'' ''AI'' ''comprehensive'';
        s2 = run_events [Interval_fires, Interval_settle t PollThrew,
                         Interval_fires, Interval_settle t (PollResponse None),
                         Interval_fires, Interval_settle t PollThrew]
               (handleGenerate (SubmitResponse True (Some ''t-expired'')) (initial_page\<lparr>topic := ''AI''\<rparr>))
    in not_found PollThrew \<and> not_found (PollResponse None)
       \<and> isGenerating s2 \<and> error s2 = None \<and> pollingStatus s2 = ''Initializing report generation...''
       \<and> intervals s2 =
           [\<lparr>interval_id = 1, delay = 10000, taskId = ''t-expired'', closed_topic = ''AI'',
             closed_reportType = ''comprehensive''\<rparr>])"
  by (simp add: page_eval)

text \<open>
  Claim C6. When every character of the topic is white space (the empty topic
  included), \<open>handleGenerate\<close> returns at its first test: it sets the error message and
  nothing else, it does not reach the call of \<open>generateReportBackground\<close>, so no request
  is issued, no interval is registered and the loading state is not entered, whatever
  the server would have answered.
\<close>

theorem blank_topic_rejected:
  assumes "\<forall>c\<in>set (topic s). is_space c"
  shows "handleGenerate_begin s = (s\<lparr>error := Some ''Please enter a topic''\<rparr>, None)
     \<and> handleGenerate out s = s\<lparr>error := Some ''Please enter a topic''\<rparr>
     \<and> requests (handleGenerate out s) = requests s
     \<and> intervals (handleGenerate out s) = intervals s
     \<and> isGenerating (handleGenerate out s) = isGenerating s"
  using trim_blank [OF assms]
  by (simp add: handleGenerate_def handleGenerate_begin_def truthy_def)

theorem blank_topic_rejected_witness:
  "list_all is_space ''   ''
   \<and> handleGenerate (SubmitResponse True (Some ''t-1'')) (initial_page\<lparr>topic := ''   ''\<rparr>) =
       initial_page\<lparr>topic := ''   '', error := Some ''Please enter a topic''\<rparr>
   \<and> requests (handleGenerate (SubmitResponse True (Some ''t-1'')) (initial_page\<lparr>topic := ''   ''\<rparr>)) = []"
  using blank_topic_rejected [where s = "initial_page\<lparr>topic := ''   ''\<rparr>"
      and out = "SubmitResponse True (Some ''t-1'')"]
  by (simp add: is_space_def initial_page_def)

text \<open>
  Claim C10. The registered intervals are at most one in every state the page can
  reach, and the unmount cleanup clears the one the ref holds (\<open>at_most_one_interval\<close>,
  \<open>unmount_clears_current\<close>). The cleanup runs once, though. When the component
  unmounts while the submission of \<open>handleGenerate\<close> is still awaited, the ref is empty
  and the cleanup clears nothing; when the submission then settles, \<open>pollStatus\<close>
  registers an interval that no cleanup will clear, and it goes on requesting the
  status of the task after the page has been left.
\<close>

theorem interval_survives_unmount:
  "run_events
     [SetTopic ''AI'', Generate_begin, Unmount,
      Generate_resume (''AI'', ''comprehensive'') (SubmitResponse True (Some ''t-1'')),
      Time_passes 10000,
      Interval_request \<lparr>interval_id = 1, delay = 10000, taskId = ''t-1'', closed_topic = ''AI'',
                         closed_reportType = ''comprehensive''\<rparr>]
     initial_page =
   initial_page
     \<lparr>topic := ''AI'', isGenerating := True,
      pollingStatus := ''Initializing report generation...'',
      pollingIntervalRef := Some 1,
      intervals := [\<lparr>interval_id = 1, delay = 10000, taskId = ''t-1'', closed_topic = ''AI'',
                      closed_reportType = ''comprehensive''\<rparr>],
      last_interval_id := 1, clock := 10000,
      requests :=
        [(0, POST_generate_background
               \<lparr>req_topic = ''AI'', req_report_type = ''comprehensive'', req_format = ''pdf'',
                use_langgraph = True\<rparr>),
         (10000, GET_report_task ''t-1'')]\<rparr>"
  by (simp add: page_eval)

section \<open>Properties of the report download and the company search\<close>

text \<open>
  Claim C8. \<open>downloadReport\<close> returns the API base URL followed by
  \<open>/api/v1/download-report/\<close> and the filename. It depends on nothing but the filename
  (and the base URL the build was configured with): the filename can be read back from
  the URL, and two filenames give the same URL only when they are the same.
\<close>

theorem downloadReport_url:
  "downloadReport env fname = API_BASE_URL env @ ''/api/v1/download-report/'' @ fname
   \<and> drop (length (API_BASE_URL env @ ''/api/v1/download-report/'')) (downloadReport env fname) = fname
   \<and> (downloadReport env f = downloadReport env g) = (f = g)
   \<and> API_BASE_URL None = ''http://localhost:8000''"
  by (simp add: downloadReport_def API_BASE_URL_def or_else_def)

theorem downloadReport_url_witness:
  "downloadReport None ''fintech-analysis.pdf'' =
     ''http://localhost:8000/api/v1/download-report/fintech-analysis.pdf''
   \<and> downloadReport (Some ''https://api.example.com'') ''r.docx'' =
     ''https://api.example.com/api/v1/download-report/r.docx''"
  using downloadReport_url [of None "''fintech-analysis.pdf''"]
    downloadReport_url [of "Some ''https://api.example.com''" "''r.docx''"]
  by (simp add: API_BASE_URL_def or_else_def or_str_def truthy_def)

text \<open>
  Claim C9, as the code has it. The request of \<open>searchCompanies\<close> goes to
  \<open>/companies\<close> and always carries \<open>query\<close> and \<open>limit\<close> (50 when the caller gives
  none). It carries \<open>industry\<close> exactly when the filter is a non-empty string whose
  lower-case form is not \<open>all\<close>, \<open>location\<close> and \<open>stage\<close> exactly when they are
  non-empty strings, \<open>min_year\<close> exactly when it is a number other than zero; and it
  carries nothing else, and nothing twice.
\<close>

theorem searchCompanies_request:
  "fst (searchCompanies q lim filters) = ''/companies''
   \<and> request_params (searchCompanies q lim filters) ''query'' = Some (Str q)
   \<and> request_params (searchCompanies q lim filters) ''limit'' =
        Some (Num (case lim of None \<Rightarrow> 50 | Some n \<Rightarrow> n))
   \<and> request_params (searchCompanies q lim filters) ''industry'' =
        (case opt_field industry filters of
           None \<Rightarrow> None
         | Some i \<Rightarrow> if truthy i \<and> toLowerCase i \<noteq> ''all'' then Some (Str i) else None)
   \<and> request_params (searchCompanies q lim filters) ''location'' =
        (case opt_field location filters of
           None \<Rightarrow> None
         | Some l \<Rightarrow> if truthy l then Some (Str l) else None)
   \<and> request_params (searchCompanies q lim filters) ''min_year'' =
        (case opt_field min_year filters of
           None \<Rightarrow> None
         | Some y \<Rightarrow> if y \<noteq> 0 then Some (Num y) else None)
   \<and> request_params (searchCompanies q lim filters) ''stage'' =
        (case opt_field stage filters of
           None \<Rightarrow> None
         | Some g \<Rightarrow> if truthy g then Some (Str g) else None)
   \<and> set (map fst (snd (searchCompanies q lim filters)))
        \<subseteq> {''query'', ''limit'', ''industry'', ''location'', ''min_year'', ''stage''}
   \<and> distinct (map fst (snd (searchCompanies q lim filters)))"
  by (auto simp: searchCompanies_def searchCompanies_params_def request_params_def
      split: option.splits)

theorem searchCompanies_request_witness:
  "snd (searchCompanies ''robotics'' None
      (Some \<lparr>industry = Some ''All'', location = Some ''Boston'', min_year = Some 2015, stage = None\<rparr>)) =
     [(''query'', Str ''robotics''), (''limit'', Num 50), (''location'', Str ''Boston''),
      (''min_year'', Num 2015)]
   \<and> snd (searchCompanies ''robotics'' (Some 100)
      (Some \<lparr>industry = Some ''AI'', location = None, min_year = None, stage = Some ''Seed''\<rparr>)) =
     [(''query'', Str ''robotics''), (''limit'', Num 100), (''industry'', Str ''AI''),
      (''stage'', Str ''Seed'')]"
  using searchCompanies_request [of "''robotics''" None
      "Some \<lparr>industry = Some ''All'', location = Some ''Boston'', min_year = Some 2015, stage = None\<rparr>"]
  by (simp add: searchCompanies_def searchCompanies_params_def opt_field_def truthy_def
      toLowerCase_def lower_char_def)

text \<open>
  The claim as written includes a filter if and only if it was provided. A \<open>min_year\<close>
  provided as 0 and a \<open>location\<close> provided as the empty string are not included.
\<close>

theorem falsy_filter_omitted:
  "request_params (searchCompanies ''robotics'' None
      (Some \<lparr>industry = None, location = Some [], min_year = Some 0, stage = None\<rparr>)) ''min_year'' = None
   \<and> request_params (searchCompanies ''robotics'' None
      (Some \<lparr>industry = None, location = Some [], min_year = Some 0, stage = None\<rparr>)) ''location'' = None"
  by (simp add: searchCompanies_def searchCompanies_params_def request_params_def opt_field_def truthy_def)

end
